theory Spec2Isabelle
  imports Main "HOL-Library.AList"
begin

section \<open>Python values used by the client\<close>

subsection \<open>Strings\<close>

text \<open>
  A Python \<open>str\<close> is modelled as a \<open>string\<close>; one \<open>char\<close> stands for one code point
  below 256 (not for a byte of an encoding). The two line boundaries of
  \<open>str.splitlines\<close> above that range (U+2028, U+2029) are therefore outside the model.
  Byte strings (\<open>bytes\<close>) are \<open>string\<close>s as well.
\<close>

definition digit_char :: "nat \<Rightarrow> char" where
  "digit_char n = ''0123456789'' ! n"

fun str_nat :: "nat \<Rightarrow> string" where
  "str_nat n = (if n < 10 then [digit_char n] else str_nat (n div 10) @ [digit_char (n mod 10)])"

definition str_int :: "int \<Rightarrow> string" where
  \<comment> \<open>\<open>str(i)\<close>, which is also what \<open>"{0}".format(i)\<close> inserts for an \<open>int\<close>\<close>
  "str_int i = (if i < 0 then CHR ''-'' # str_nat (nat (- i)) else str_nat (nat i))"

definition str_bool :: "bool \<Rightarrow> string" where
  "str_bool b = (if b then ''True'' else ''False'')"

definition lower_char :: "char \<Rightarrow> char" where
  "lower_char c =
     (let n = (of_char c :: nat)
      in if (65 \<le> n \<and> n \<le> 90) \<or> (192 \<le> n \<and> n \<le> 222 \<and> n \<noteq> 215)
         then char_of (n + 32) else c)"

definition lower :: "string \<Rightarrow> string" where
  "lower s = map lower_char s"

fun join :: "string \<Rightarrow> string list \<Rightarrow> string" where
  "join sep [] = []"
| "join sep [x] = x"
| "join sep (x # y # ys) = x @ sep @ join sep (y # ys)"

definition is_linebreak :: "char \<Rightarrow> bool" where
  \<comment> \<open>the line boundaries of \<open>str.splitlines\<close>: LF, VT, FF, CR, FS, GS, RS, NEL\<close>
  "is_linebreak c \<longleftrightarrow>
     c \<in> set [CHR 0x0A, CHR 0x0B, CHR 0x0C, CHR 0x0D, CHR 0x1C, CHR 0x1D, CHR 0x1E, CHR 0x85]"

fun splitlines_from :: "string \<Rightarrow> string \<Rightarrow> string list" where
  "splitlines_from line [] = (if line = [] then [] else [line])"
| "splitlines_from line [c] = (if is_linebreak c then [line] else [line @ [c]])"
| "splitlines_from line (c # d # cs) =
     (if c = CHR 0x0D \<and> d = CHR 0x0A then line # splitlines_from [] cs
      else if is_linebreak c then line # splitlines_from [] (d # cs)
      else splitlines_from (line @ [c]) (d # cs))"

definition splitlines :: "string \<Rightarrow> string list" where
  \<comment> \<open>\<open>data.splitlines()\<close>: CR LF is one boundary, no empty last line after a final boundary\<close>
  "splitlines data = splitlines_from [] data"

definition split_once :: "char \<Rightarrow> string \<Rightarrow> string list" where
  \<comment> \<open>\<open>line.split(sep, 1)\<close> for a separator of one character\<close>
  "split_once sep line =
     (if sep \<in> set line
      then [takeWhile (\<lambda>c. c \<noteq> sep) line, tl (dropWhile (\<lambda>c. c \<noteq> sep) line)]
      else [line])"

subsection \<open>Dictionaries\<close>

text \<open>
  A \<open>dict\<close> from \<open>str\<close> to \<open>str\<close> is an association list in insertion order with distinct
  keys; \<open>d[k] = v\<close> overwrites the value of a key already present, in place, and appends
  a new key otherwise.
\<close>

type_synonym dict = "(string \<times> string) list"

definition setitem :: "dict \<Rightarrow> string \<Rightarrow> string \<Rightarrow> dict" where
  "setitem d k v = AList.update k v d"

definition dict_contains :: "string \<Rightarrow> dict \<Rightarrow> bool" where
  \<comment> \<open>\<open>k in d\<close>: membership among the keys\<close>
  "dict_contains k d \<longleftrightarrow> k \<in> set (map fst d)"

subsection \<open>Exceptions\<close>

text \<open>
  An exception object carries the classes it is an instance of (its own class and all
  its bases), since an \<open>except\<close> clause selects by \<open>isinstance\<close>. \<open>TimeoutError\<close> is
  \<open>asyncio.TimeoutError\<close>, \<open>CancelledError\<close> is \<open>asyncio.CancelledError\<close>,
  \<open>gaierror\<close> is \<open>socket.gaierror\<close>; \<open>ClientError\<close>, \<open>ClientResponseError\<close> and
  \<open>ServerTimeoutError\<close> are aiohttp's.
\<close>

datatype pyclass =
    BaseException | Exception | CancelledError | TimeoutError | KeyError | TypeError
  | OSError | gaierror | ConnectionError
  | ClientError | ClientResponseError | ClientConnectionError | ServerConnectionError
  | ServerTimeoutError

datatype exn = Exn (classes: "pyclass list") (args: string) (cause: "exn option")

definition isinstance :: "exn \<Rightarrow> pyclass \<Rightarrow> bool" where
  "isinstance e c \<longleftrightarrow> c \<in> set (classes e)"

datatype 'a result = Return 'a | Raise exn

definition new_Exception :: "string \<Rightarrow> exn" where
  "new_Exception msg = Exn [Exception, BaseException] msg None"

definition new_TypeError :: "string \<Rightarrow> exn" where
  "new_TypeError msg = Exn [TypeError, Exception, BaseException] msg None"

definition new_TimeoutError :: exn where
  "new_TimeoutError = Exn [TimeoutError, Exception, BaseException] [] None"

definition new_CancelledError :: exn where
  \<comment> \<open>a \<open>BaseException\<close> that is not an \<open>Exception\<close> (Python 3.8 and later)\<close>
  "new_CancelledError = Exn [CancelledError, BaseException] [] None"

definition new_ConnectionError :: "exn \<Rightarrow> exn" where
  \<comment> \<open>\<open>ConnectionError()\<close> raised \<open>from\<close> the given exception\<close>
  "new_ConnectionError e = Exn [ConnectionError, OSError, Exception, BaseException] [] (Some e)"

definition new_ClientResponseError :: "nat \<Rightarrow> exn" where
  "new_ClientResponseError code =
     Exn [ClientResponseError, ClientError, Exception, BaseException] (str_nat code) None"

definition new_ServerTimeoutError :: exn where
  \<comment> \<open>aiohttp derives it from \<open>ServerConnectionError\<close> and from \<open>asyncio.TimeoutError\<close>\<close>
  "new_ServerTimeoutError =
     Exn [ServerTimeoutError, ServerConnectionError, ClientConnectionError, ClientError,
          TimeoutError, Exception, BaseException] [] None"

definition new_gaierror :: "string \<Rightarrow> exn" where
  "new_gaierror msg = Exn [gaierror, OSError, Exception, BaseException] msg None"

section \<open>The device and the HTTP layer\<close>

text \<open>
  What the camera and the HTTP layer do is a parameter of every operation. An awaited
  call takes some time (in milliseconds) and then either delivers a value or raises.
  A response has a status, the outcome of \<open>response.text()\<close>, the outcome of
  \<open>response.read()\<close>, and the items that \<open>response.content.iter_chunks()\<close> delivers one
  after the other (a stream that never ends or breaks has a chunk at every index).
\<close>

datatype 'a outcome = Done 'a | Fails exn

datatype 'a awaited = Awaited (took: nat) (gave: "'a outcome")

datatype item = Chunk string | EndOfStream | Broken exn

record response =
  status :: nat
  body_text :: "string awaited"
  content :: "string awaited"
  chunks :: "nat \<Rightarrow> item"

text \<open>
  The network answers the \<open>n\<close>-th request of a run (counted from 0) to a URL.
  It stands for \<open>DigestAuth.request\<close> (module \<open>digest\<close>, not part of the sources at hand)
  together with the transport below it.
\<close>

type_synonym network = "nat \<Rightarrow> string \<Rightarrow> response awaited"

datatype logarg = S string | E exn

text \<open>
  The observable effects of a run: how many \<open>DigestAuth\<close> objects were constructed, the
  requests issued (authenticator, method, URL), the responses closed (one entry per
  call of \<open>close\<close>, naming the request that produced the response), the calls of
  \<open>_LOGGER.error\<close>, and the data handed to the \<open>on_receive\<close> handler.
\<close>

record world =
  auths :: nat
  requests :: "(nat \<times> string \<times> string) list"
  closed :: "nat list"
  logged :: "(string \<times> logarg list) list"
  received :: "string list"

definition world0 :: world where
  "world0 = \<lparr>auths = 0, requests = [], closed = [], logged = [], received = []\<rparr>"

definition DigestAuth :: "world \<Rightarrow> nat \<times> world" where
  \<comment> \<open>\<open>DigestAuth(username, password, session)\<close>: a new object, named by its number\<close>
  "DigestAuth w = (auths w, w\<lparr>auths := Suc (auths w)\<rparr>)"

definition auth_request :: "nat \<Rightarrow> string \<Rightarrow> string \<Rightarrow> network \<Rightarrow> world
    \<Rightarrow> response awaited \<times> nat \<times> world" where
  \<comment> \<open>\<open>auth.request(method, url)\<close>: the answer, the number naming its response, the world\<close>
  "auth_request auth method url net w =
     (net (length (requests w)) url, length (requests w),
      w\<lparr>requests := requests w @ [(auth, method, url)]\<rparr>)"

definition raise_for_status :: "response \<Rightarrow> exn option" where
  \<comment> \<open>aiohttp: raises \<open>ClientResponseError\<close> when the status is 400 or higher\<close>
  "raise_for_status r = (if 400 \<le> status r then Some (new_ClientResponseError (status r)) else None)"

definition close :: "nat \<Rightarrow> world \<Rightarrow> world" where
  "close rid w = w\<lparr>closed := closed w @ [rid]\<rparr>"

definition error_log :: "string \<Rightarrow> logarg list \<Rightarrow> world \<Rightarrow> world" where
  "error_log fmt as w = w\<lparr>logged := logged w @ [(fmt, as)]\<rparr>"

section \<open>The client\<close>

definition TIMEOUT_SECONDS :: nat where
  "TIMEOUT_SECONDS = 5"

definition expired :: "nat \<Rightarrow> bool" where
  \<comment> \<open>\<open>async_timeout.timeout(TIMEOUT_SECONDS)\<close>: the time spent inside exceeds the limit\<close>
  "expired elapsed \<longleftrightarrow> TIMEOUT_SECONDS * 1000 < elapsed"

text \<open>
  Modelled from the spec: the constants \<open>STREAM_MAIN\<close> and \<open>STREAM_SUB\<close> of module
  \<open>const\<close>, which is not part of the sources at hand; the stream names are Main and Sub.
\<close>

definition STREAM_MAIN :: string where
  "STREAM_MAIN = ''Main''"

definition STREAM_SUB :: string where
  "STREAM_SUB = ''Sub''"

record client =
  username :: "string option"
  password :: "string option"
  address :: string
  port :: int
  rtsp_port :: int
  base :: string

definition DahuaClient :: "string option \<Rightarrow> string option \<Rightarrow> string \<Rightarrow> int \<Rightarrow> int \<Rightarrow> client" where
  \<comment> \<open>\<open>__init__\<close>; the aiohttp session is an opaque handle and left out\<close>
  "DahuaClient user pass addr p rp =
     \<lparr>username = user, password = pass, address = addr, port = p, rtsp_port = rp,
      base = ''http://'' @ addr @ '':'' @ str_int p\<rparr>"

subsection \<open>Decoding a response\<close>

fun parse_lines :: "string list \<Rightarrow> dict \<Rightarrow> dict" where
  "parse_lines [] data_dict = data_dict"
| "parse_lines (line # lines) data_dict =
     (let parts = split_once CHR ''='' line
      in if length parts = 2
         then parse_lines lines (setitem data_dict (parts ! 0) (parts ! 1))
         else parse_lines lines (setitem data_dict (parts ! 0) line))"

definition parse_dahua_api_response :: "string \<Rightarrow> dict" where
  "parse_dahua_api_response data = parse_lines (splitlines data) []"

text \<open>
  The reading of a line that the specification gives: a line \<open>key=value\<close> is the pair of
  what stands before its first \<open>=\<close> and what stands after it, a line without \<open>=\<close> is
  the pair of the line and itself.
\<close>

definition line_pair :: "string \<Rightarrow> string \<times> string" where
  "line_pair line =
     (if CHR ''='' \<in> set line
      then (takeWhile (\<lambda>c. c \<noteq> CHR ''='') line, tl (dropWhile (\<lambda>c. c \<noteq> CHR ''='') line))
      else (line, line))"

subsection \<open>One-off requests\<close>

definition get_except :: "string \<Rightarrow> exn \<Rightarrow> world \<Rightarrow> dict option result \<times> world" where
  \<comment> \<open>the \<open>except\<close> clauses of \<open>get\<close>, in their order; falling off the end returns \<open>None\<close>\<close>
  "get_except url e w =
     (if isinstance e TimeoutError
      then (Return None, error_log ''TimeoutError fetching information from %s - %s'' [S url, E e] w)
      else if isinstance e KeyError \<or> isinstance e TypeError
      then (Return None, error_log ''TypeError parsing information from %s - %s'' [S url, E e] w)
      else if isinstance e ClientError \<or> isinstance e gaierror
      then (Raise e, w)
      else if isinstance e Exception
      then (Return None, error_log ''Something really wrong happened! - %s'' [E e] w)
      else (Raise e, w))"

definition get :: "client \<Rightarrow> string \<Rightarrow> network \<Rightarrow> world \<Rightarrow> dict option result \<times> world" where
  "get self url0 net w =
     (let url = base self @ url0;
          (auth, w1) = DigestAuth w;
          (ans, rid, w2) = auth_request auth ''GET'' url net w1
      in if expired (took ans) then get_except url new_TimeoutError w2
         else case gave ans of
           Fails e \<Rightarrow> get_except url e w2
         | Done response \<Rightarrow>
             (case raise_for_status response of
                Some e \<Rightarrow> get_except url e (close rid w2)
              | None \<Rightarrow>
                  (let t = body_text response
                   in if expired (took ans + took t)
                      then get_except url new_TimeoutError (close rid w2)
                      else case gave t of
                        Fails e \<Rightarrow> get_except url e (close rid w2)
                      | Done data \<Rightarrow>
                          (Return (Some (parse_dahua_api_response data)), close rid w2))))"

definition get_bytes_except :: "string \<Rightarrow> exn \<Rightarrow> world \<Rightarrow> string option result \<times> world" where
  \<comment> \<open>the \<open>except\<close> clauses of \<open>get_bytes\<close>: every one of them only logs\<close>
  "get_bytes_except url e w =
     (if isinstance e TimeoutError
      then (Return None, error_log ''Timeout error fetching information from %s - %s'' [S url, E e] w)
      else if isinstance e KeyError \<or> isinstance e TypeError
      then (Return None, error_log ''Error parsing information from %s - %s'' [S url, E e] w)
      else if isinstance e ClientError \<or> isinstance e gaierror
      then (Return None, error_log ''Error fetching information from %s - %s'' [S url, E e] w)
      else if isinstance e Exception
      then (Return None, error_log ''Something really wrong happened! - %s'' [E e] w)
      else (Raise e, w))"

definition get_bytes :: "client \<Rightarrow> string \<Rightarrow> network \<Rightarrow> world \<Rightarrow> string option result \<times> world" where
  "get_bytes self url net w =
     (let (auth, w1) = DigestAuth w;
          (ans, rid, w2) = auth_request auth ''GET'' (base self @ url) net w1
      in if expired (took ans) then get_bytes_except url new_TimeoutError w2
         else case gave ans of
           Fails e \<Rightarrow> get_bytes_except url e w2
         | Done response \<Rightarrow>
             (case raise_for_status response of
                Some e \<Rightarrow> get_bytes_except url e (close rid w2)
              | None \<Rightarrow>
                  (let t = content response
                   in if expired (took ans + took t)
                      then get_bytes_except url new_TimeoutError (close rid w2)
                      else case gave t of
                        Fails e \<Rightarrow> get_bytes_except url e (close rid w2)
                      | Done data \<Rightarrow> (Return (Some data), close rid w2))))"

subsection \<open>Setting configuration\<close>

text \<open>
  Each operation builds its URL, awaits \<open>get\<close>, and tests
  \<open>"OK" not in value and "ok" not in value\<close> on what \<open>get\<close> returned. On a \<open>dict\<close>,
  \<open>in\<close> is membership among the keys; on \<open>None\<close> it raises \<open>TypeError\<close>.
\<close>

definition NoneType_not_iterable :: exn where
  "NoneType_not_iterable = new_TypeError ''argument of type NoneType is not iterable''"

definition async_set_video_profile_mode :: "client \<Rightarrow> string \<Rightarrow> network \<Rightarrow> world
    \<Rightarrow> unit result \<times> world" where
  "async_set_video_profile_mode self mode net w =
     (let mode = (if lower mode = ''night'' then ''1'' else ''0'');
          url = ''/cgi-bin/configManager.cgi?action=setConfig&VideoInMode[0].Config[0]='' @ mode
      in case get self url net w of
           (Raise e, w') \<Rightarrow> (Raise e, w')
         | (Return None, w') \<Rightarrow> (Raise NoneType_not_iterable, w')
         | (Return (Some value), w') \<Rightarrow>
             if \<not> dict_contains ''OK'' value \<and> \<not> dict_contains ''ok'' value
             then (Raise (new_Exception ''Could not set video profile mode''), w')
             else (Return (), w'))"

definition async_enable_channel_title :: "client \<Rightarrow> int \<Rightarrow> bool \<Rightarrow> network \<Rightarrow> world
    \<Rightarrow> unit result \<times> world" where
  "async_enable_channel_title self channel enabled net w =
     (let url = ''/cgi-bin/configManager.cgi?action=setConfig&VideoWidget['' @ str_int channel
                @ ''].ChannelTitle.EncodeBlend='' @ lower (str_bool enabled)
      in case get self url net w of
           (Raise e, w') \<Rightarrow> (Raise e, w')
         | (Return None, w') \<Rightarrow> (Raise NoneType_not_iterable, w')
         | (Return (Some value), w') \<Rightarrow>
             if \<not> dict_contains ''OK'' value \<and> \<not> dict_contains ''ok'' value
             then (Raise (new_Exception ''Could enable/disable channel title''), w')
             else (Return (), w'))"

definition async_enable_time_overlay :: "client \<Rightarrow> int \<Rightarrow> bool \<Rightarrow> network \<Rightarrow> world
    \<Rightarrow> unit result \<times> world" where
  "async_enable_time_overlay self channel enabled net w =
     (let url = ''/cgi-bin/configManager.cgi?action=setConfig&VideoWidget['' @ str_int channel
                @ ''].TimeTitle.EncodeBlend='' @ lower (str_bool enabled)
      in case get self url net w of
           (Raise e, w') \<Rightarrow> (Raise e, w')
         | (Return None, w') \<Rightarrow> (Raise NoneType_not_iterable, w')
         | (Return (Some value), w') \<Rightarrow>
             if \<not> dict_contains ''OK'' value \<and> \<not> dict_contains ''ok'' value
             then (Raise (new_Exception ''Could not enable/disable time overlay''), w')
             else (Return (), w'))"

definition async_enable_text_overlay :: "client \<Rightarrow> int \<Rightarrow> int \<Rightarrow> bool \<Rightarrow> network \<Rightarrow> world
    \<Rightarrow> unit result \<times> world" where
  "async_enable_text_overlay self channel grp enabled net w =
     (let url = ''/cgi-bin/configManager.cgi?action=setConfig&VideoWidget['' @ str_int channel
                @ ''].CustomTitle['' @ str_int grp @ ''].EncodeBlend='' @ lower (str_bool enabled)
      in case get self url net w of
           (Raise e, w') \<Rightarrow> (Raise e, w')
         | (Return None, w') \<Rightarrow> (Raise NoneType_not_iterable, w')
         | (Return (Some value), w') \<Rightarrow>
             if \<not> dict_contains ''OK'' value \<and> \<not> dict_contains ''ok'' value
             then (Raise (new_Exception ''Could not enable/disable text overlay''), w')
             else (Return (), w'))"

definition async_enable_custom_overlay :: "client \<Rightarrow> int \<Rightarrow> int \<Rightarrow> bool \<Rightarrow> network \<Rightarrow> world
    \<Rightarrow> unit result \<times> world" where
  "async_enable_custom_overlay self channel grp enabled net w =
     (let url = ''/cgi-bin/configManager.cgi?action=setConfig&VideoWidget['' @ str_int channel
                @ ''].UserDefinedTitle['' @ str_int grp @ ''].EncodeBlend='' @ lower (str_bool enabled)
      in case get self url net w of
           (Raise e, w') \<Rightarrow> (Raise e, w')
         | (Return None, w') \<Rightarrow> (Raise NoneType_not_iterable, w')
         | (Return (Some value), w') \<Rightarrow>
             if \<not> dict_contains ''OK'' value \<and> \<not> dict_contains ''ok'' value
             then (Raise (new_Exception ''Could not enable/disable customer overlay''), w')
             else (Return (), w'))"

definition async_set_service_set_channel_title :: "client \<Rightarrow> int \<Rightarrow> string \<Rightarrow> string
    \<Rightarrow> network \<Rightarrow> world \<Rightarrow> unit result \<times> world" where
  "async_set_service_set_channel_title self channel text1 text2 net w =
     (let txt = join ''|'' (filter (\<lambda>t. t \<noteq> []) [text1, text2]);
          url = ''/cgi-bin/configManager.cgi?action=setConfig&ChannelTitle['' @ str_int channel
                @ ''].Name='' @ txt
      in case get self url net w of
           (Raise e, w') \<Rightarrow> (Raise e, w')
         | (Return None, w') \<Rightarrow> (Raise NoneType_not_iterable, w')
         | (Return (Some value), w') \<Rightarrow>
             if \<not> dict_contains ''OK'' value \<and> \<not> dict_contains ''ok'' value
             then (Raise (new_Exception ''Could not set text''), w')
             else (Return (), w'))"

definition async_set_service_set_text_overlay :: "client \<Rightarrow> int \<Rightarrow> int \<Rightarrow> string \<Rightarrow> string
    \<Rightarrow> string \<Rightarrow> string \<Rightarrow> network \<Rightarrow> world \<Rightarrow> unit result \<times> world" where
  "async_set_service_set_text_overlay self channel grp text1 text2 text3 text4 net w =
     (let txt = join ''|'' (filter (\<lambda>t. t \<noteq> []) [text1, text2, text3, text4]);
          url = ''/cgi-bin/configManager.cgi?action=setConfig&VideoWidget['' @ str_int channel
                @ ''].CustomTitle['' @ str_int grp @ ''].Text='' @ txt
      in case get self url net w of
           (Raise e, w') \<Rightarrow> (Raise e, w')
         | (Return None, w') \<Rightarrow> (Raise NoneType_not_iterable, w')
         | (Return (Some value), w') \<Rightarrow>
             if \<not> dict_contains ''OK'' value \<and> \<not> dict_contains ''ok'' value
             then (Raise (new_Exception ''Could not set text''), w')
             else (Return (), w'))"

definition async_set_service_set_custom_overlay :: "client \<Rightarrow> int \<Rightarrow> int \<Rightarrow> string \<Rightarrow> string
    \<Rightarrow> network \<Rightarrow> world \<Rightarrow> unit result \<times> world" where
  "async_set_service_set_custom_overlay self channel grp text1 text2 net w =
     (let txt = join ''|'' (filter (\<lambda>t. t \<noteq> []) [text1, text2]);
          url = ''/cgi-bin/configManager.cgi?action=setConfig&VideoWidget['' @ str_int channel
                @ ''].UserDefinedTitle['' @ str_int grp @ ''].Text='' @ txt
      in case get self url net w of
           (Raise e, w') \<Rightarrow> (Raise e, w')
         | (Return None, w') \<Rightarrow> (Raise NoneType_not_iterable, w')
         | (Return (Some value), w') \<Rightarrow>
             if \<not> dict_contains ''OK'' value \<and> \<not> dict_contains ''ok'' value
             then (Raise (new_Exception ''Could not set text''), w')
             else (Return (), w'))"

text \<open>
  The reading of the acknowledgement that the specification gives: the token occurs
  somewhere in the text, in any letter case.
\<close>

fun contains_any_case :: "string \<Rightarrow> string \<Rightarrow> bool" where
  "contains_any_case tok [] = (tok = [])"
| "contains_any_case tok (c # cs) =
     (lower (take (length tok) (c # cs)) = lower tok \<or> contains_any_case tok cs)"

subsection \<open>Motion detection\<close>

definition enable_motion_detection :: "client \<Rightarrow> bool \<Rightarrow> network \<Rightarrow> world
    \<Rightarrow> dict option result \<times> world" where
  "enable_motion_detection self enabled net w =
     (let url = ''/cgi-bin/configManager.cgi?action=setConfig&MotionDetect[0].Enable=''
                @ lower (str_bool enabled) @ ''&MotionDetect[0].DetectVersion=V3.0''
      in case get self url net w of
           (Raise e, w1) \<Rightarrow> (Raise e, w1)
         | (Return None, w1) \<Rightarrow> (Raise NoneType_not_iterable, w1)
         | (Return (Some response), w1) \<Rightarrow>
             if dict_contains ''OK'' response then (Return (Some response), w1)
             else (let url = ''/cgi-bin/configManager.cgi?action=setConfig&MotionDetect[0].Enable=''
                             @ lower (str_bool enabled)
                   in get self url net w1))"

subsection \<open>The event stream\<close>

text \<open>
  The loop \<open>async for data, _ in response.content.iter_chunks(): on_receive(data)\<close>,
  from the item at index \<open>i\<close> on. The handler either returns (\<open>None\<close>) or raises. The
  result is the exception that ended the loop, if one did; a stream that never ends
  keeps the loop running, and the value is \<open>None\<close>.
\<close>

partial_function (option) iter_chunks :: "(string \<Rightarrow> exn option) \<Rightarrow> (nat \<Rightarrow> item) \<Rightarrow> nat
    \<Rightarrow> world \<Rightarrow> (exn option \<times> world) option" where
  "iter_chunks on_receive stream i w =
     (case stream i of
        EndOfStream \<Rightarrow> Some (None, w)
      | Broken e \<Rightarrow> Some (Some e, w)
      | Chunk data \<Rightarrow>
          (case on_receive data of
             Some e \<Rightarrow> Some (Some e, w\<lparr>received := received w @ [data]\<rparr>)
           | None \<Rightarrow> iter_chunks on_receive stream (Suc i) (w\<lparr>received := received w @ [data]\<rparr>)))"

definition stream_except :: "exn \<Rightarrow> unit result" where
  \<comment> \<open>\<open>except Exception as exception: raise ConnectionError() from exception\<close>\<close>
  "stream_except e = (if isinstance e Exception then Raise (new_ConnectionError e) else Raise e)"

definition stream_events :: "client \<Rightarrow> (string \<Rightarrow> exn option) \<Rightarrow> string list \<Rightarrow> network
    \<Rightarrow> world \<Rightarrow> (unit result \<times> world) option" where
  "stream_events self on_receive events net w =
     (let codes = join '','' events;
          url = base self @ ''/cgi-bin/eventManager.cgi?action=attach&codes=['' @ codes
                @ '']&heartbeat=2''
      in if username self \<noteq> None \<and> password self \<noteq> None
         then (let (auth, w1) = DigestAuth w;
                   (ans, rid, w2) = auth_request auth ''GET'' url net w1
               in case gave ans of
                    Fails e \<Rightarrow> Some (stream_except e, w2)
                  | Done response \<Rightarrow>
                      (case raise_for_status response of
                         Some e \<Rightarrow> Some (stream_except e, close rid w2)
                       | None \<Rightarrow>
                           (case iter_chunks on_receive (chunks response) 0 w2 of
                              None \<Rightarrow> None
                            | Some (None, w3) \<Rightarrow> Some (Return (), close rid w3)
                            | Some (Some e, w3) \<Rightarrow> Some (stream_except e, close rid w3))))
         else Some (Return (), w))"

text \<open>
  The same call, observed while it runs: the loop is cut off after \<open>n\<close> rounds. The
  result is \<open>None\<close> as long as the loop is still running, and the world is the one
  reached so far; a response is closed only when the loop has been left.
\<close>

fun iter_chunks_upto :: "nat \<Rightarrow> (string \<Rightarrow> exn option) \<Rightarrow> (nat \<Rightarrow> item) \<Rightarrow> nat \<Rightarrow> world
    \<Rightarrow> exn option option \<times> world" where
  "iter_chunks_upto 0 on_receive stream i w = (None, w)"
| "iter_chunks_upto (Suc n) on_receive stream i w =
     (case stream i of
        EndOfStream \<Rightarrow> (Some None, w)
      | Broken e \<Rightarrow> (Some (Some e), w)
      | Chunk data \<Rightarrow>
          (case on_receive data of
             Some e \<Rightarrow> (Some (Some e), w\<lparr>received := received w @ [data]\<rparr>)
           | None \<Rightarrow>
               iter_chunks_upto n on_receive stream (Suc i) (w\<lparr>received := received w @ [data]\<rparr>)))"

definition stream_events_upto :: "nat \<Rightarrow> client \<Rightarrow> (string \<Rightarrow> exn option) \<Rightarrow> string list
    \<Rightarrow> network \<Rightarrow> world \<Rightarrow> unit result option \<times> world" where
  "stream_events_upto n self on_receive events net w =
     (let codes = join '','' events;
          url = base self @ ''/cgi-bin/eventManager.cgi?action=attach&codes=['' @ codes
                @ '']&heartbeat=2''
      in if username self \<noteq> None \<and> password self \<noteq> None
         then (let (auth, w1) = DigestAuth w;
                   (ans, rid, w2) = auth_request auth ''GET'' url net w1
               in case gave ans of
                    Fails e \<Rightarrow> (Some (stream_except e), w2)
                  | Done response \<Rightarrow>
                      (case raise_for_status response of
                         Some e \<Rightarrow> (Some (stream_except e), close rid w2)
                       | None \<Rightarrow>
                           (case iter_chunks_upto n on_receive (chunks response) 0 w2 of
                              (None, w3) \<Rightarrow> (None, w3)
                            | (Some None, w3) \<Rightarrow> (Some (Return ()), close rid w3)
                            | (Some (Some e), w3) \<Rightarrow> (Some (stream_except e), close rid w3))))
         else (Some (Return ()), w))"

subsection \<open>Address helpers\<close>

definition to_subtype :: "string \<Rightarrow> int" where
  "to_subtype stream_name =
     (if stream_name = STREAM_MAIN then 0
      else if stream_name = STREAM_SUB then 1
      else 0)"

definition to_stream_name :: "int \<Rightarrow> string" where
  "to_stream_name subtype = (if subtype = 1 then STREAM_SUB else STREAM_MAIN)"

text \<open>
  A one-off fetch raises \<open>e\<close> before the timeout: the request does, or the reading of the
  body of its response does (\<open>body\<close> is \<open>body_text\<close> for \<open>get\<close>, \<open>content\<close> for
  \<open>get_bytes\<close>).
\<close>

definition fetch_raises :: "(response \<Rightarrow> string awaited) \<Rightarrow> network \<Rightarrow> world \<Rightarrow> string \<Rightarrow> exn
    \<Rightarrow> bool" where
  "fetch_raises body net w url e \<longleftrightarrow>
     (case net (length (requests w)) url of
        Awaited t (Fails e') \<Rightarrow> \<not> expired t \<and> e' = e
      | Awaited t (Done r) \<Rightarrow>
          \<not> expired t \<and> status r < 400 \<and> \<not> expired (t + took (body r)) \<and> gave (body r) = Fails e)"

section \<open>Example devices\<close>

definition camera :: client where
  "camera = DahuaClient (Some ''admin'') (Some ''secret'') ''192.168.1.108'' 80 554"

definition stream_of :: "string list \<Rightarrow> item \<Rightarrow> nat \<Rightarrow> item" where
  \<comment> \<open>the stream that delivers the given chunks and then stops with the given item\<close>
  "stream_of ds final i = (if i < length ds then Chunk (ds ! i) else final)"

definition text_response :: "nat \<Rightarrow> string \<Rightarrow> response" where
  \<comment> \<open>a response whose body arrives after 20 ms, as text, as bytes and as one chunk\<close>
  "text_response code data =
     \<lparr>status = code, body_text = Awaited 20 (Done data), content = Awaited 20 (Done data),
      chunks = stream_of [data] EndOfStream\<rparr>"

definition replies :: "response \<Rightarrow> network" where
  \<comment> \<open>a device that answers every request after 30 ms with the same response\<close>
  "replies r = (\<lambda>n url. Awaited 30 (Done r))"

definition replies_after :: "nat \<Rightarrow> response \<Rightarrow> network" where
  \<comment> \<open>a device that answers every request after the given time with the same response\<close>
  "replies_after t r = (\<lambda>n url. Awaited t (Done r))"

definition accept :: "string \<Rightarrow> exn option" where
  \<comment> \<open>an \<open>on_receive\<close> handler that returns normally on every chunk\<close>
  "accept data = None"

definition event_response :: "nat \<Rightarrow> string list \<Rightarrow> item \<Rightarrow> response" where
  \<comment> \<open>a response whose stream delivers the given chunks and then stops with the given item\<close>
  "event_response code ds final =
     \<lparr>status = code, body_text = Awaited 20 (Done []), content = Awaited 20 (Done []),
      chunks = stream_of ds final\<rparr>"

definition replies_in_turn :: "response \<Rightarrow> response \<Rightarrow> network" where
  \<comment> \<open>a device that answers the first request with one response and all later ones with another\<close>
  "replies_in_turn r1 r2 = (\<lambda>n url. Awaited 30 (Done (if n = 0 then r1 else r2)))"

definition endless :: "string \<Rightarrow> nat \<Rightarrow> item" where
  \<comment> \<open>the stream that delivers the same chunk for ever\<close>
  "endless data i = Chunk data"

definition refuses :: "nat \<Rightarrow> exn \<Rightarrow> network" where
  \<comment> \<open>a network on which every request fails after the given time\<close>
  "refuses t e = (\<lambda>n url. Awaited t (Fails e))"

text \<open>
  The stream delivers \<open>n\<close> chunks that the handler accepts, and then the loop is left
  with the exception \<open>e\<close>: raised by the stream, or by the handler on the next chunk.
\<close>

definition stream_raises :: "(string \<Rightarrow> exn option) \<Rightarrow> (nat \<Rightarrow> item) \<Rightarrow> nat \<Rightarrow> exn \<Rightarrow> bool" where
  "stream_raises on_receive stream n e \<longleftrightarrow>
     (\<forall>j<n. \<exists>d. stream j = Chunk d \<and> on_receive d = None)
     \<and> (stream n = Broken e \<or> (\<exists>d. stream n = Chunk d \<and> on_receive d = Some e))"

section \<open>Decoding: the lines of a response\<close>

lemma split_once_eq:
  "split_once CHR ''='' line =
     (if CHR ''='' \<in> set line then [fst (line_pair line), snd (line_pair line)] else [line])"
  by (simp add: split_once_def line_pair_def)

lemma parse_lines_step:
  "parse_lines (line # lines) d =
     parse_lines lines (setitem d (fst (line_pair line)) (snd (line_pair line)))"
  by (simp add: split_once_eq line_pair_def)

lemma map_of_setitem: "map_of (setitem d k v) = (map_of d)(k \<mapsto> v)"
  by (simp add: setitem_def update_conv')

lemma parse_lines_map_of:
  "map_of (parse_lines lines d) = map_of (rev (map line_pair lines) @ d)"
proof (induction lines arbitrary: d)
  case Nil
  show ?case by simp
next
  case (Cons line lines)
  have "map_of (parse_lines (line # lines) d)
          = map_of (rev (map line_pair lines) @ setitem d (fst (line_pair line)) (snd (line_pair line)))"
    unfolding parse_lines_step by (rule Cons.IH)
  also have "\<dots> = map_of (rev (map line_pair lines) @ line_pair line # d)"
    by (simp add: map_of_setitem)
  finally show ?case by simp
qed

lemma line_pair_key_value:
  "CHR ''='' \<notin> set key \<Longrightarrow> line_pair (key @ CHR ''='' # v) = (key, v)"
proof -
  assume k: "CHR ''='' \<notin> set key"
  then have "takeWhile (\<lambda>c. c \<noteq> CHR ''='') (key @ CHR ''='' # v) = key"
    by (induction key) auto
  moreover from k have "dropWhile (\<lambda>c. c \<noteq> CHR ''='') (key @ CHR ''='' # v) = CHR ''='' # v"
    by (induction key) auto
  ultimately show ?thesis by (simp add: line_pair_def)
qed

lemma line_pair_bare: "CHR ''='' \<notin> set line \<Longrightarrow> line_pair line = (line, line)"
  by (simp add: line_pair_def)

lemma not_linebreak_CR: "\<not> is_linebreak c \<Longrightarrow> c \<noteq> CHR 0x0D"
  by (auto simp: is_linebreak_def)

lemma is_linebreak_LF: "is_linebreak CHR 0x0A"
  by (simp add: is_linebreak_def)

lemma splitlines_from_LF:
  "\<forall>c\<in>set a. \<not> is_linebreak c \<Longrightarrow>
     splitlines_from line (a @ CHR 0x0A # b) = (line @ a) # splitlines_from [] b"
proof (induction a arbitrary: line)
  case Nil
  show ?case by (cases b) (simp_all add: is_linebreak_LF)
next
  case (Cons x a)
  obtain d cs where rest: "a @ CHR 0x0A # b = d # cs" by (cases a) auto
  have x: "\<not> is_linebreak x" "x \<noteq> CHR 0x0D" using Cons.prems by (auto dest: not_linebreak_CR)
  have "splitlines_from line ((x # a) @ CHR 0x0A # b) = splitlines_from (line @ [x]) (a @ CHR 0x0A # b)"
    using x by (simp add: rest)
  also have "\<dots> = ((line @ [x]) @ a) # splitlines_from [] b"
    using Cons.prems by (intro Cons.IH) simp
  finally show ?case by simp
qed

lemma splitlines_from_plain:
  "\<forall>c\<in>set a. \<not> is_linebreak c \<Longrightarrow>
     splitlines_from line a = (if line @ a = [] then [] else [line @ a])"
proof (induction a arbitrary: line)
  case Nil
  show ?case by simp
next
  case (Cons x a)
  have x: "\<not> is_linebreak x" "x \<noteq> CHR 0x0D" using Cons.prems by (auto dest: not_linebreak_CR)
  show ?case
  proof (cases a)
    case Nil
    then show ?thesis using x by simp
  next
    case (Cons d cs)
    have "splitlines_from line (x # a) = splitlines_from (line @ [x]) a"
      using x by (simp add: Cons)
    also have "\<dots> = [ (line @ [x]) @ a ]"
      using Cons.prems \<open>\<forall>c\<in>set (x # a). \<not> is_linebreak c\<close> by (subst Cons.IH) simp_all
    finally show ?thesis by simp
  qed
qed

text \<open>
  Claim C6. \<open>parse_dahua_api_response\<close> splits its input into lines and every line at
  its first \<open>=\<close>: the resulting dictionary is the one of the pairs of the lines, a later
  line overriding an earlier one with the same key; a line \<open>key=value\<close> gives the pair of
  key and value, a line without \<open>=\<close> the pair of the line and itself. A newline ends a
  line, and a text without a line boundary is one line (none, when empty). The two
  examples of the specification evaluate as stated.
\<close>

theorem parse_dahua_api_response_lines:
  "map_of (parse_dahua_api_response data) = map_of (rev (map line_pair (splitlines data)))
   \<and> (\<forall>key v. CHR ''='' \<notin> set key \<longrightarrow> line_pair (key @ CHR ''='' # v) = (key, v))
   \<and> (\<forall>line. CHR ''='' \<notin> set line \<longrightarrow> line_pair line = (line, line))
   \<and> (\<forall>a b. (\<forall>c\<in>set a. \<not> is_linebreak c) \<longrightarrow>
          splitlines (a @ CHR 0x0A # b) = a # splitlines b)
   \<and> (\<forall>a. (\<forall>c\<in>set a. \<not> is_linebreak c) \<longrightarrow> splitlines a = (if a = [] then [] else [a]))
   \<and> parse_dahua_api_response ''key1=value1\<newline>key2=value2''
       = [(''key1'', ''value1''), (''key2'', ''value2'')]
   \<and> parse_dahua_api_response ''standalonekey'' = [(''standalonekey'', ''standalonekey'')]"
proof (intro conjI allI impI)
  show "map_of (parse_dahua_api_response data) = map_of (rev (map line_pair (splitlines data)))"
    by (simp add: parse_dahua_api_response_def parse_lines_map_of)
next
  fix key v assume "CHR ''='' \<notin> set key"
  then show "line_pair (key @ CHR ''='' # v) = (key, v)" by (rule line_pair_key_value)
next
  fix line assume "CHR ''='' \<notin> set line"
  then show "line_pair line = (line, line)" by (rule line_pair_bare)
next
  fix a b assume "\<forall>c\<in>set a. \<not> is_linebreak c"
  then show "splitlines (a @ CHR 0x0A # b) = a # splitlines b"
    by (simp add: splitlines_def splitlines_from_LF)
next
  fix a assume "\<forall>c\<in>set a. \<not> is_linebreak c"
  then show "splitlines a = (if a = [] then [] else [a])"
    by (simp add: splitlines_def splitlines_from_plain)
next
  show "parse_dahua_api_response ''key1=value1\<newline>key2=value2''
       = [(''key1'', ''value1''), (''key2'', ''value2'')]"
    by (simp add: parse_dahua_api_response_def splitlines_def is_linebreak_def split_once_def
        setitem_def)
next
  show "parse_dahua_api_response ''standalonekey'' = [(''standalonekey'', ''standalonekey'')]"
    by (simp add: parse_dahua_api_response_def splitlines_def is_linebreak_def split_once_def
        setitem_def)
qed

text \<open>
  The theorem at the input of three lines \<open>a=1\<close>, \<open>b\<close>, \<open>a=2\<close>.
\<close>

theorem parse_dahua_api_response_lines_witness:
  "map_of (parse_dahua_api_response ''a=1\<newline>b\<newline>a=2'') ''a'' = Some ''2''
   \<and> map_of (parse_dahua_api_response ''a=1\<newline>b\<newline>a=2'') ''b'' = Some ''b''
   \<and> line_pair ''a=1'' = (''a'', ''1'')
   \<and> splitlines ''a=1\<newline>b'' = [''a=1'', ''b'']"
proof -
  note t = parse_dahua_api_response_lines [of "''a=1\<newline>b\<newline>a=2''"]
  have nb: "\<forall>c\<in>set ''b''. \<not> is_linebreak c" "\<forall>c\<in>set ''a=1''. \<not> is_linebreak c"
       "\<forall>c\<in>set ''a=2''. \<not> is_linebreak c"
    by (simp_all add: is_linebreak_def)
  have s1: "splitlines ''a=2'' = [''a=2'']" using t nb by simp
  have s2: "splitlines ''b\<newline>a=2'' = [''b'', ''a=2'']"
    using conjunct1 [OF conjunct2 [OF conjunct2 [OF conjunct2 [OF t]]], rule_format, of "''b''" "''a=2''"] nb s1
    by simp
  have s3: "splitlines ''a=1\<newline>b\<newline>a=2'' = [''a=1'', ''b'', ''a=2'']"
    using conjunct1 [OF conjunct2 [OF conjunct2 [OF conjunct2 [OF t]]], rule_format, of "''a=1''" "''b\<newline>a=2''"] nb s2
    by simp
  have sb: "splitlines ''b'' = [''b'']" using t nb by simp
  have s4: "splitlines ''a=1\<newline>b'' = [''a=1'', ''b'']"
    using conjunct1 [OF conjunct2 [OF conjunct2 [OF conjunct2 [OF t]]], rule_format, of "''a=1''" "''b''"] nb sb
    by simp
  have p1: "line_pair ''a=1'' = (''a'', ''1'')"
    using conjunct1 [OF conjunct2 [OF t], rule_format, of "''a''" "''1''"] by simp
  have p2: "line_pair ''a=2'' = (''a'', ''2'')"
    using conjunct1 [OF conjunct2 [OF t], rule_format, of "''a''" "''2''"] by simp
  have p3: "line_pair ''b'' = (''b'', ''b'')"
    using conjunct1 [OF conjunct2 [OF conjunct2 [OF t]], rule_format, of "''b''"] by simp
  have m: "map_of (parse_dahua_api_response ''a=1\<newline>b\<newline>a=2'')
             = map_of [(''a'', ''2''), (''b'', ''b''), (''a'', ''1'')]"
    using conjunct1 [OF t] by (simp add: s3 p1 p2 p3)
  show ?thesis using m p1 s4 by simp
qed

section \<open>Address helpers: stream names\<close>

text \<open>
  Claim C8. \<open>to_subtype\<close> maps Main to 0, Sub to 1 and every other string to 0;
  \<open>to_stream_name\<close> maps 1 to Sub and every other integer to Main; translating a name
  of Main or Sub to its subtype and back gives the name again.
\<close>

theorem stream_names_round_trip:
  "to_subtype ''Main'' = 0 \<and> to_subtype ''Sub'' = 1
   \<and> (\<forall>s. s \<noteq> ''Main'' \<and> s \<noteq> ''Sub'' \<longrightarrow> to_subtype s = 0)
   \<and> to_stream_name 1 = ''Sub''
   \<and> (\<forall>n. n \<noteq> 1 \<longrightarrow> to_stream_name n = ''Main'')
   \<and> (\<forall>x\<in>{''Main'', ''Sub''}. to_stream_name (to_subtype x) = x)"
  by (simp add: to_subtype_def to_stream_name_def STREAM_MAIN_def STREAM_SUB_def)

text \<open>
  The theorem at the name Both, the subtype 7 and the round trip of Sub.
\<close>

theorem stream_names_round_trip_witness:
  "to_subtype ''Both'' = 0 \<and> to_stream_name 7 = ''Main''
   \<and> to_stream_name (to_subtype ''Sub'') = ''Sub''"
proof -
  note t = stream_names_round_trip
  have a: "to_subtype ''Both'' = 0"
    using conjunct1 [OF conjunct2 [OF conjunct2 [OF t]], rule_format, of "''Both''"] by simp
  have b: "to_stream_name 7 = ''Main''"
    using conjunct1 [OF conjunct2 [OF conjunct2 [OF conjunct2 [OF conjunct2 [OF t]]]], rule_format, of 7]
    by simp
  have c: "to_stream_name (to_subtype ''Sub'') = ''Sub''"
    using conjunct2 [OF conjunct2 [OF conjunct2 [OF conjunct2 [OF conjunct2 [OF t]]]]] by simp
  show ?thesis using a b c by simp
qed

section \<open>The event stream\<close>

text \<open>
  Claim C9. When the user name or the password of the client is \<open>None\<close>,
  \<open>stream_events\<close> returns at once: no authenticator is constructed, no request is
  issued, the handler is not called, nothing is logged, and nothing is raised (the world
  is unchanged).
\<close>

theorem stream_events_without_credentials:
  "username self = None \<or> password self = None \<Longrightarrow>
     stream_events self on_receive events net w = Some (Return (), w)"
  by (auto simp: stream_events_def)

text \<open>
  The theorem at a client constructed without a user name.
\<close>

theorem stream_events_without_credentials_witness:
  "stream_events (DahuaClient None (Some ''secret'') ''192.168.1.108'' 80 554)
      accept [''VideoMotion''] (refuses 10 (new_gaierror ''unreachable'')) world0
   = Some (Return (), world0)"
  by (rule stream_events_without_credentials) (simp add: DahuaClient_def)

section \<open>One-off requests\<close>

lemma get_except_world:
  "auths (snd (get_except url e w)) = auths w"
  "requests (snd (get_except url e w)) = requests w"
  "closed (snd (get_except url e w)) = closed w"
  by (simp_all add: get_except_def error_log_def)

lemma get_bytes_except_world:
  "auths (snd (get_bytes_except url e w)) = auths w"
  "requests (snd (get_bytes_except url e w)) = requests w"
  "closed (snd (get_bytes_except url e w)) = closed w"
  by (simp_all add: get_bytes_except_def error_log_def)

lemma get_requests:
  "auths (snd (get self url net w)) = Suc (auths w)"
  "requests (snd (get self url net w)) = requests w @ [(auths w, ''GET'', base self @ url)]"
  by (simp_all add: get_def DigestAuth_def auth_request_def Let_def close_def get_except_world
      split: outcome.split option.split)

lemma get_bytes_requests:
  "auths (snd (get_bytes self url net w)) = Suc (auths w)"
  "requests (snd (get_bytes self url net w)) = requests w @ [(auths w, ''GET'', base self @ url)]"
  by (simp_all add: get_bytes_def DigestAuth_def auth_request_def Let_def close_def
      get_bytes_except_world split: outcome.split option.split)

lemma get_request_expired:
  assumes "expired (took (net (length (requests w)) (base self @ url)))"
  shows "get self url net w =
           get_except (base self @ url) new_TimeoutError
             (w\<lparr>auths := Suc (auths w), requests := requests w @ [(auths w, ''GET'', base self @ url)]\<rparr>)"
  using assms by (simp add: get_def DigestAuth_def auth_request_def Let_def)

lemma isinstance_TimeoutError [simp]:
  "isinstance new_TimeoutError TimeoutError"
  by (simp add: isinstance_def new_TimeoutError_def)

text \<open>
  Claim C3. When the request of a one-off text fetch exceeds the timeout, \<open>get\<close> raises
  nothing and logs the timeout; but it falls off the end of the function, so its result
  is \<open>None\<close>, not the empty dictionary that \<open>data = {}\<close> and the declared result type
  \<open>dict\<close> announce.
\<close>

theorem get_timeout_returns_None:
  assumes "expired (took (net (length (requests w)) (base self @ url)))"
  shows "fst (get self url net w) = Return None
         \<and> fst (get self url net w) \<noteq> Return (Some [])
         \<and> logged (snd (get self url net w)) =
             logged w @ [(''TimeoutError fetching information from %s - %s'',
                          [S (base self @ url), E new_TimeoutError])]"
  by (simp add: get_request_expired [where net = net and w = w and self = self and url = url, OF assms]
      get_except_def error_log_def)

text \<open>
  The theorem at a device that needs 6000 ms to answer, against a limit of 5000 ms.
\<close>

theorem get_timeout_returns_None_witness:
  "fst (get camera ''/cgi-bin/magicBox.cgi?action=getSystemInfo''
          (replies_after 6000 (text_response 200 ''deviceType=IPC'')) world0) = Return None"
proof -
  have "expired (took (replies_after 6000 (text_response 200 ''deviceType=IPC'')
          (length (requests world0)) (base camera @ ''/cgi-bin/magicBox.cgi?action=getSystemInfo'')))"
    by (simp add: replies_after_def expired_def TIMEOUT_SECONDS_def)
  from get_timeout_returns_None
         [where net = "replies_after 6000 (text_response 200 ''deviceType=IPC'')"
            and w = world0 and self = camera
            and url = "''/cgi-bin/magicBox.cgi?action=getSystemInfo''", OF this]
  show ?thesis by simp
qed

lemma get_fetch_raises:
  assumes "fetch_raises body_text net w (base self @ url) e"
  shows "\<exists>w'. get self url net w = get_except (base self @ url) e w' \<and> logged w' = logged w"
  using assms
  by (auto simp: fetch_raises_def get_def DigestAuth_def auth_request_def Let_def
      raise_for_status_def close_def split: awaited.splits outcome.splits)

lemma get_bytes_fetch_raises:
  assumes "fetch_raises content net w (base self @ url) e"
  shows "\<exists>w'. get_bytes self url net w = get_bytes_except url e w' \<and> logged w' = logged w"
  using assms
  by (auto simp: fetch_raises_def get_bytes_def DigestAuth_def auth_request_def Let_def
      raise_for_status_def close_def split: awaited.splits outcome.splits)

text \<open>
  Claim C2, as amended. Let \<open>e\<close> be an aiohttp client error or a \<open>socket.gaierror\<close> that
  is not at the same time an \<open>asyncio.TimeoutError\<close>, a \<open>KeyError\<close> or a \<open>TypeError\<close>.
  When the request or the reading of the body raises \<open>e\<close> before the timeout, \<open>get\<close>
  raises \<open>e\<close> again and logs nothing, whereas \<open>get_bytes\<close> raises nothing, logs the
  error and returns \<open>None\<close>.
\<close>

theorem transport_failure_asymmetry:
  assumes "isinstance e ClientError \<or> isinstance e gaierror"
      and "\<not> isinstance e TimeoutError" and "\<not> isinstance e KeyError"
      and "\<not> isinstance e TypeError"
  shows "(fetch_raises body_text net w (base self @ url) e \<longrightarrow>
            fst (get self url net w) = Raise e
            \<and> logged (snd (get self url net w)) = logged w)
         \<and> (fetch_raises content net w (base self @ url) e \<longrightarrow>
            fst (get_bytes self url net w) = Return None
            \<and> logged (snd (get_bytes self url net w)) =
                logged w @ [(''Error fetching information from %s - %s'', [S url, E e])])"
proof (intro conjI impI)
  assume "fetch_raises body_text net w (base self @ url) e"
  then obtain w' where g: "get self url net w = get_except (base self @ url) e w'"
    and l: "logged w' = logged w"
    using get_fetch_raises by blast
  show "fst (get self url net w) = Raise e" "logged (snd (get self url net w)) = logged w"
    using assms l by (auto simp: g get_except_def)
next
  assume "fetch_raises content net w (base self @ url) e"
  then obtain w' where g: "get_bytes self url net w = get_bytes_except url e w'"
    and l: "logged w' = logged w"
    using get_bytes_fetch_raises by blast
  show "fst (get_bytes self url net w) = Return None"
       "logged (snd (get_bytes self url net w)) =
          logged w @ [(''Error fetching information from %s - %s'', [S url, E e])]"
    using assms l by (auto simp: g get_bytes_except_def error_log_def)
qed

text \<open>
  The theorem at a failed name lookup (\<open>socket.gaierror\<close>), for both paths.
\<close>

theorem transport_failure_asymmetry_witness:
  "fst (get camera ''/cgi-bin/magicBox.cgi?action=getVendor''
          (refuses 10 (new_gaierror ''Name or service not known'')) world0)
     = Raise (new_gaierror ''Name or service not known'')
   \<and> fst (get_bytes camera ''/cgi-bin/snapshot.cgi?channel=1''
          (refuses 10 (new_gaierror ''Name or service not known'')) world0)
     = Return None"
proof -
  let ?e = "new_gaierror ''Name or service not known''"
  have c: "isinstance ?e ClientError \<or> isinstance ?e gaierror"
          "\<not> isinstance ?e TimeoutError" "\<not> isinstance ?e KeyError" "\<not> isinstance ?e TypeError"
    by (simp_all add: isinstance_def new_gaierror_def)
  have n: "fetch_raises body (refuses 10 ?e) world0 u ?e" for body u
    by (simp add: fetch_raises_def refuses_def expired_def TIMEOUT_SECONDS_def)
  from transport_failure_asymmetry
         [where net = "refuses 10 ?e" and w = world0 and self = camera
            and url = "''/cgi-bin/magicBox.cgi?action=getVendor''", OF c]
       transport_failure_asymmetry
         [where net = "refuses 10 ?e" and w = world0 and self = camera
            and url = "''/cgi-bin/snapshot.cgi?channel=1''", OF c]
  show ?thesis by (simp add: n)
qed

text \<open>
  Claim C2 as stated fails: aiohttp's \<open>ServerTimeoutError\<close> is a client error and an
  \<open>asyncio.TimeoutError\<close> at once; the first \<open>except\<close> clause of \<open>get\<close> catches it, and
  \<open>get\<close> returns \<open>None\<close> instead of raising.
\<close>

theorem get_swallows_ServerTimeoutError_counterexample:
  "isinstance new_ServerTimeoutError ClientError
   \<and> fst (get camera ''/cgi-bin/magicBox.cgi?action=getVendor''
            (refuses 10 new_ServerTimeoutError) world0) = Return None"
  by (simp add: get_def DigestAuth_def auth_request_def Let_def refuses_def expired_def
      TIMEOUT_SECONDS_def get_except_def isinstance_def new_ServerTimeoutError_def world0_def)

section \<open>Setting configuration\<close>

lemma get_value:
  assumes "\<forall>u. net (length (requests w)) u = Awaited t (Done r)"
      and "\<not> expired t" and "status r < 400"
      and "body_text r = Awaited t' (Done data)" and "\<not> expired (t + t')"
  shows "\<exists>w'. get self url net w = (Return (Some (parse_dahua_api_response data)), w')"
  using assms
  by (simp add: get_def DigestAuth_def auth_request_def Let_def raise_for_status_def)

text \<open>
  Claim C1, as amended. When the device answers in time with a status below 400 and the
  text \<open>data\<close>, each of the eight operations returns without error exactly when the
  dictionary decoded from \<open>data\<close> has the key \<open>OK\<close> or the key \<open>ok\<close> (a whole key, in
  exactly one of these two spellings), and raises its own error otherwise.
\<close>

theorem set_config_acknowledged_by_key:
  assumes "\<forall>url. net (length (requests w)) url = Awaited t (Done r)"
      and "\<not> expired t" and "status r < 400"
      and "body_text r = Awaited t' (Done data)" and "\<not> expired (t + t')"
      and "value = parse_dahua_api_response data"
      and "ok = (dict_contains ''OK'' value \<or> dict_contains ''ok'' value)"
  shows "fst (async_set_video_profile_mode self mode net w) =
           (if ok then Return () else Raise (new_Exception ''Could not set video profile mode''))
       \<and> fst (async_enable_channel_title self channel enabled net w) =
           (if ok then Return () else Raise (new_Exception ''Could enable/disable channel title''))
       \<and> fst (async_enable_time_overlay self channel enabled net w) =
           (if ok then Return () else Raise (new_Exception ''Could not enable/disable time overlay''))
       \<and> fst (async_enable_text_overlay self channel grp enabled net w) =
           (if ok then Return () else Raise (new_Exception ''Could not enable/disable text overlay''))
       \<and> fst (async_enable_custom_overlay self channel grp enabled net w) =
           (if ok then Return () else Raise (new_Exception ''Could not enable/disable customer overlay''))
       \<and> fst (async_set_service_set_channel_title self channel text1 text2 net w) =
           (if ok then Return () else Raise (new_Exception ''Could not set text''))
       \<and> fst (async_set_service_set_text_overlay self channel grp text1 text2 text3 text4 net w) =
           (if ok then Return () else Raise (new_Exception ''Could not set text''))
       \<and> fst (async_set_service_set_custom_overlay self channel grp text1 text2 net w) =
           (if ok then Return () else Raise (new_Exception ''Could not set text''))"
proof -
  note g = get_value [where net = net and w = w and self = self, OF assms(1-5)]
  have 1: "fst (async_set_video_profile_mode self mode net w) =
           (if ok then Return () else Raise (new_Exception ''Could not set video profile mode''))"
    unfolding async_set_video_profile_mode_def Let_def
    using g [of "''/cgi-bin/configManager.cgi?action=setConfig&VideoInMode[0].Config[0]=''
                 @ (if lower mode = ''night'' then ''1'' else ''0'')"]
    by (auto simp: assms(6,7))
  have 2: "fst (async_enable_channel_title self channel enabled net w) =
           (if ok then Return () else Raise (new_Exception ''Could enable/disable channel title''))"
    unfolding async_enable_channel_title_def Let_def
    using g [of "''/cgi-bin/configManager.cgi?action=setConfig&VideoWidget['' @ str_int channel
                @ ''].ChannelTitle.EncodeBlend='' @ lower (str_bool enabled)"]
    by (auto simp: assms(6,7))
  have 3: "fst (async_enable_time_overlay self channel enabled net w) =
           (if ok then Return () else Raise (new_Exception ''Could not enable/disable time overlay''))"
    unfolding async_enable_time_overlay_def Let_def
    using g [of "''/cgi-bin/configManager.cgi?action=setConfig&VideoWidget['' @ str_int channel
                @ ''].TimeTitle.EncodeBlend='' @ lower (str_bool enabled)"]
    by (auto simp: assms(6,7))
  have 4: "fst (async_enable_text_overlay self channel grp enabled net w) =
           (if ok then Return () else Raise (new_Exception ''Could not enable/disable text overlay''))"
    unfolding async_enable_text_overlay_def Let_def
    using g [of "''/cgi-bin/configManager.cgi?action=setConfig&VideoWidget['' @ str_int channel
                @ ''].CustomTitle['' @ str_int grp @ ''].EncodeBlend='' @ lower (str_bool enabled)"]
    by (auto simp: assms(6,7))
  have 5: "fst (async_enable_custom_overlay self channel grp enabled net w) =
           (if ok then Return () else Raise (new_Exception ''Could not enable/disable customer overlay''))"
    unfolding async_enable_custom_overlay_def Let_def
    using g [of "''/cgi-bin/configManager.cgi?action=setConfig&VideoWidget['' @ str_int channel
                @ ''].UserDefinedTitle['' @ str_int grp @ ''].EncodeBlend='' @ lower (str_bool enabled)"]
    by (auto simp: assms(6,7))
  have 6: "fst (async_set_service_set_channel_title self channel text1 text2 net w) =
           (if ok then Return () else Raise (new_Exception ''Could not set text''))"
    unfolding async_set_service_set_channel_title_def Let_def
    using g [of "''/cgi-bin/configManager.cgi?action=setConfig&ChannelTitle['' @ str_int channel
                @ ''].Name='' @ join ''|'' (filter (\<lambda>t. t \<noteq> []) [text1, text2])"]
    by (auto simp: assms(6,7))
  have 7: "fst (async_set_service_set_text_overlay self channel grp text1 text2 text3 text4 net w) =
           (if ok then Return () else Raise (new_Exception ''Could not set text''))"
    unfolding async_set_service_set_text_overlay_def Let_def
    using g [of "''/cgi-bin/configManager.cgi?action=setConfig&VideoWidget['' @ str_int channel
                @ ''].CustomTitle['' @ str_int grp @ ''].Text=''
                @ join ''|'' (filter (\<lambda>t. t \<noteq> []) [text1, text2, text3, text4])"]
    by (auto simp: assms(6,7))
  have 8: "fst (async_set_service_set_custom_overlay self channel grp text1 text2 net w) =
           (if ok then Return () else Raise (new_Exception ''Could not set text''))"
    unfolding async_set_service_set_custom_overlay_def Let_def
    using g [of "''/cgi-bin/configManager.cgi?action=setConfig&VideoWidget['' @ str_int channel
                @ ''].UserDefinedTitle['' @ str_int grp @ ''].Text=''
                @ join ''|'' (filter (\<lambda>t. t \<noteq> []) [text1, text2])"]
    by (auto simp: assms(6,7))
  from 1 2 3 4 5 6 7 8 show ?thesis by blast
qed

lemma parse_OK: "parse_dahua_api_response ''OK'' = [(''OK'', ''OK'')]"
  by (simp add: parse_dahua_api_response_def splitlines_def is_linebreak_def split_once_def
      setitem_def)

lemma parse_Ok: "parse_dahua_api_response ''Ok'' = [(''Ok'', ''Ok'')]"
  by (simp add: parse_dahua_api_response_def splitlines_def is_linebreak_def split_once_def
      setitem_def)

lemma parse_Error: "parse_dahua_api_response ''Error'' = [(''Error'', ''Error'')]"
  by (simp add: parse_dahua_api_response_def splitlines_def is_linebreak_def split_once_def
      setitem_def)

lemma not_expired_small: "\<not> expired 30" "\<not> expired (30 + 20)"
  by (simp_all add: expired_def TIMEOUT_SECONDS_def)

text \<open>
  The theorem at the answers \<open>OK\<close> and \<open>Error\<close>.
\<close>

theorem set_config_acknowledged_by_key_witness:
  "fst (async_enable_time_overlay camera 1 True (replies (text_response 200 ''OK'')) world0)
     = Return ()
   \<and> fst (async_set_video_profile_mode camera ''Night'' (replies (text_response 200 ''Error'')) world0)
     = Raise (new_Exception ''Could not set video profile mode'')"
proof -
  have a: "\<forall>url. replies (text_response 200 d) (length (requests world0)) url
             = Awaited 30 (Done (text_response 200 d))" for d
    by (simp add: replies_def)
  have b: "status (text_response 200 d) < 400"
          "body_text (text_response 200 d) = Awaited 20 (Done d)" for d
    by (simp_all add: text_response_def)
  from set_config_acknowledged_by_key
         [where net = "replies (text_response 200 ''OK'')" and w = world0 and self = camera
            and channel = 1 and enabled = True,
          OF a not_expired_small(1) b not_expired_small(2) refl refl]
       set_config_acknowledged_by_key
         [where net = "replies (text_response 200 ''Error'')" and w = world0 and self = camera
            and mode = "''Night''",
          OF a not_expired_small(1) b not_expired_small(2) refl refl]
  show ?thesis by (simp add: parse_OK parse_Error dict_contains_def)
qed

text \<open>
  Claim C1 as stated fails: the answer \<open>Ok\<close> contains the token in a letter case, and
  decodes to a dictionary whose only key is \<open>Ok\<close>; the operation raises its error.
\<close>

theorem set_config_mixed_case_counterexample:
  "contains_any_case ''OK'' ''Ok''
   \<and> parse_dahua_api_response ''Ok'' = [(''Ok'', ''Ok'')]
   \<and> fst (async_enable_channel_title camera 1 True (replies (text_response 200 ''Ok'')) world0)
       = Raise (new_Exception ''Could enable/disable channel title'')"
proof (intro conjI)
  show "contains_any_case ''OK'' ''Ok''"
    by code_simp
  show "parse_dahua_api_response ''Ok'' = [(''Ok'', ''Ok'')]" by (rule parse_Ok)
  have "\<exists>w'. get camera u (replies (text_response 200 ''Ok'')) world0
          = (Return (Some (parse_dahua_api_response ''Ok'')), w')" for u
    by (rule get_value [where t = 30 and t' = 20 and r = "text_response 200 ''Ok''"])
       (simp_all add: replies_def text_response_def expired_def TIMEOUT_SECONDS_def)
  then obtain w' where
    "get camera (''/cgi-bin/configManager.cgi?action=setConfig&VideoWidget['' @ str_int 1
                @ ''].ChannelTitle.EncodeBlend='' @ lower (str_bool True))
        (replies (text_response 200 ''Ok'')) world0 = (Return (Some [(''Ok'', ''Ok'')]), w')"
    unfolding parse_Ok by blast
  then show "fst (async_enable_channel_title camera 1 True (replies (text_response 200 ''Ok'')) world0)
       = Raise (new_Exception ''Could enable/disable channel title'')"
    by (simp add: async_enable_channel_title_def Let_def dict_contains_def)
qed

section \<open>The event stream: failure, release, authenticators\<close>

lemma iter_chunks_world:
  assumes "iter_chunks h s i w = Some y"
  shows "auths (snd y) = auths w \<and> requests (snd y) = requests w
     \<and> closed (snd y) = closed w \<and> logged (snd y) = logged w"
proof (rule iter_chunks.raw_induct
    [where P = "\<lambda>(h :: string \<Rightarrow> exn option) (s :: nat \<Rightarrow> item) (i :: nat) w y.
        auths (snd y) = auths w \<and> requests (snd y) = requests w
        \<and> closed (snd y) = closed w \<and> logged (snd y) = logged w", OF _ assms])
  fix iter and h :: "string \<Rightarrow> exn option" and s :: "nat \<Rightarrow> item" and i :: nat
    and w :: world and y :: "exn option \<times> world"
  assume IH: "\<And>h s i w y. iter h s i w = Some y \<Longrightarrow>
        auths (snd y) = auths w \<and> requests (snd y) = requests w
        \<and> closed (snd y) = closed w \<and> logged (snd y) = logged w"
    and step: "(case s i of
        Chunk data \<Rightarrow>
          (case h data of
             None \<Rightarrow> iter h s (Suc i) (w\<lparr>received := received w @ [data]\<rparr>)
           | Some e \<Rightarrow> Some (Some e, w\<lparr>received := received w @ [data]\<rparr>))
      | EndOfStream \<Rightarrow> Some (None, w)
      | Broken e \<Rightarrow> Some (Some e, w)) = Some y"
  show "auths (snd y) = auths w \<and> requests (snd y) = requests w
        \<and> closed (snd y) = closed w \<and> logged (snd y) = logged w"
  proof (cases "s i")
    case (Chunk d)
    show ?thesis
    proof (cases "h d")
      case None
      with step Chunk have "iter h s (Suc i) (w\<lparr>received := received w @ [d]\<rparr>) = Some y"
        by simp
      from IH [OF this] show ?thesis by simp
    next
      case (Some e)
      with step Chunk show ?thesis by auto
    qed
  next
    case EndOfStream
    with step show ?thesis by auto
  next
    case (Broken e)
    with step show ?thesis by auto
  qed
qed

lemma iter_chunks_raises:
  assumes "\<forall>j<n. \<exists>d. s (i + j) = Chunk d \<and> h d = None"
      and "s (i + n) = Broken e \<or> (\<exists>d. s (i + n) = Chunk d \<and> h d = Some e)"
  shows "\<exists>w'. iter_chunks h s i w = Some (Some e, w')"
  using assms
proof (induction n arbitrary: i w)
  case 0
  then show ?case by (subst iter_chunks.simps) auto
next
  case (Suc n)
  from Suc.prems(1) obtain d where d: "s i = Chunk d" "h d = None" by force
  have "\<forall>j<n. \<exists>d. s (Suc i + j) = Chunk d \<and> h d = None"
    using Suc.prems(1) by (metis Suc_less_eq add_Suc_right add_Suc)
  moreover have "s (Suc i + n) = Broken e \<or> (\<exists>d. s (Suc i + n) = Chunk d \<and> h d = Some e)"
    using Suc.prems(2) by simp
  ultimately obtain w' where
    "iter_chunks h s (Suc i) (w\<lparr>received := received w @ [d]\<rparr>) = Some (Some e, w')"
    using Suc.IH by blast
  then show ?case by (subst iter_chunks.simps) (simp add: d)
qed

lemma iter_chunks_stream_raises:
  "stream_raises h s n e \<Longrightarrow> \<exists>w'. iter_chunks h s 0 w = Some (Some e, w')"
  using iter_chunks_raises [of n s 0 h e w] by (simp add: stream_raises_def)


lemma isinstance_ClientResponseError:
  "isinstance (new_ClientResponseError code) Exception"
  by (simp add: isinstance_def new_ClientResponseError_def)

lemma stream_events_request_fails:
  assumes "username self \<noteq> None" and "password self \<noteq> None"
      and "gave (net (length (requests w))
                 (base self @ ''/cgi-bin/eventManager.cgi?action=attach&codes=[''
                  @ join '','' events @ '']&heartbeat=2'')) = Fails e"
  shows "stream_events self on_receive events net w =
           Some (stream_except e,
                 w\<lparr>auths := Suc (auths w),
                   requests := requests w @ [(auths w, ''GET'',
                     base self @ ''/cgi-bin/eventManager.cgi?action=attach&codes=[''
                     @ join '','' events @ '']&heartbeat=2'')]\<rparr>)"
  using assms by (simp add: stream_events_def Let_def DigestAuth_def auth_request_def)

lemma stream_events_bad_status:
  assumes "username self \<noteq> None" and "password self \<noteq> None"
      and "gave (net (length (requests w))
                 (base self @ ''/cgi-bin/eventManager.cgi?action=attach&codes=[''
                  @ join '','' events @ '']&heartbeat=2'')) = Done r"
      and "400 \<le> status r"
  shows "stream_events self on_receive events net w =
           Some (stream_except (new_ClientResponseError (status r)),
                 w\<lparr>auths := Suc (auths w),
                   requests := requests w @ [(auths w, ''GET'',
                     base self @ ''/cgi-bin/eventManager.cgi?action=attach&codes=[''
                     @ join '','' events @ '']&heartbeat=2'')],
                   closed := closed w @ [length (requests w)]\<rparr>)"
  using assms
  by (simp add: stream_events_def Let_def DigestAuth_def auth_request_def raise_for_status_def
      close_def)

lemma stream_events_streaming:
  assumes "username self \<noteq> None" and "password self \<noteq> None"
      and "gave (net (length (requests w))
                 (base self @ ''/cgi-bin/eventManager.cgi?action=attach&codes=[''
                  @ join '','' events @ '']&heartbeat=2'')) = Done r"
      and "status r < 400"
  shows "stream_events self on_receive events net w =
           (case iter_chunks on_receive (chunks r) 0
                   (w\<lparr>auths := Suc (auths w),
                     requests := requests w @ [(auths w, ''GET'',
                       base self @ ''/cgi-bin/eventManager.cgi?action=attach&codes=[''
                       @ join '','' events @ '']&heartbeat=2'')]\<rparr>) of
              None \<Rightarrow> None
            | Some (None, w3) \<Rightarrow> Some (Return (), close (length (requests w)) w3)
            | Some (Some e, w3) \<Rightarrow> Some (stream_except e, close (length (requests w)) w3))"
  using assms
  by (simp add: stream_events_def Let_def DigestAuth_def auth_request_def raise_for_status_def
      cong: option.case_cong prod.case_cong)

text \<open>
  Claim C5, as amended. With credentials present: when the request raises an exception
  that is an \<open>Exception\<close>, when the response has a status of 400 or above, or when,
  after a status below 400, the stream or the handler raises an \<open>Exception\<close> after any
  number of delivered chunks, \<open>stream_events\<close> raises \<open>ConnectionError\<close> whose cause
  is the original exception. In the first two cases the handler has not been called: the
  loop is not entered.
\<close>

theorem stream_events_failure_is_ConnectionError:
  assumes "username self \<noteq> None" and "password self \<noteq> None"
      and "ans = net (length (requests w))
                 (base self @ ''/cgi-bin/eventManager.cgi?action=attach&codes=[''
                  @ join '','' events @ '']&heartbeat=2'')"
  shows "(\<forall>e. gave ans = Fails e \<and> isinstance e Exception \<longrightarrow>
            (\<exists>w'. stream_events self on_receive events net w
                     = Some (Raise (new_ConnectionError e), w')
                  \<and> received w' = received w))
       \<and> (\<forall>r. gave ans = Done r \<and> 400 \<le> status r \<longrightarrow>
            (\<exists>w'. stream_events self on_receive events net w
                     = Some (Raise (new_ConnectionError (new_ClientResponseError (status r))), w')
                  \<and> received w' = received w))
       \<and> (\<forall>r n e. gave ans = Done r \<and> status r < 400
              \<and> stream_raises on_receive (chunks r) n e \<and> isinstance e Exception \<longrightarrow>
            (\<exists>w'. stream_events self on_receive events net w
                     = Some (Raise (new_ConnectionError e), w')))"
proof (intro conjI allI impI)
  fix e assume "gave ans = Fails e \<and> isinstance e Exception"
  then show "\<exists>w'. stream_events self on_receive events net w
                     = Some (Raise (new_ConnectionError e), w') \<and> received w' = received w"
    using stream_events_request_fails [where net = net and w = w and self = self
        and events = events and e = e and on_receive = on_receive] assms
    by (simp add: stream_except_def)
next
  fix r assume "gave ans = Done r \<and> 400 \<le> status r"
  then show "\<exists>w'. stream_events self on_receive events net w
                 = Some (Raise (new_ConnectionError (new_ClientResponseError (status r))), w')
               \<and> received w' = received w"
    using stream_events_bad_status [where net = net and w = w and self = self
        and events = events and r = r and on_receive = on_receive] assms
    by (simp add: stream_except_def isinstance_ClientResponseError)
next
  fix r n e
  assume a: "gave ans = Done r \<and> status r < 400
              \<and> stream_raises on_receive (chunks r) n e \<and> isinstance e Exception"
  let ?w2 = "w\<lparr>auths := Suc (auths w),
                requests := requests w @ [(auths w, ''GET'',
                  base self @ ''/cgi-bin/eventManager.cgi?action=attach&codes=[''
                  @ join '','' events @ '']&heartbeat=2'')]\<rparr>"
  from a obtain w3 where "iter_chunks on_receive (chunks r) 0 ?w2 = Some (Some e, w3)"
    using iter_chunks_stream_raises by blast
  then show "\<exists>w'. stream_events self on_receive events net w
                     = Some (Raise (new_ConnectionError e), w')"
    using stream_events_streaming [where net = net and w = w and self = self
        and events = events and r = r and on_receive = on_receive] assms a
    by (simp add: stream_except_def)
qed

text \<open>
  Claim C7. Whenever a call of \<open>stream_events\<close> with credentials has obtained a response
  and returns or raises, whatever the way out (the stream ended, an error, a
  cancellation), the call has closed that response exactly once: the record of closed
  responses has grown by one entry, the one of this response.
\<close>

theorem stream_events_closes_once:
  assumes "username self \<noteq> None" and "password self \<noteq> None"
      and "gave (net (length (requests w))
                 (base self @ ''/cgi-bin/eventManager.cgi?action=attach&codes=[''
                  @ join '','' events @ '']&heartbeat=2'')) = Done r"
      and "stream_events self on_receive events net w = Some (out, w')"
  shows "closed w' = closed w @ [length (requests w)]"
proof (cases "status r < 400")
  case False
  then show ?thesis
    using stream_events_bad_status [where net = net and w = w and self = self
        and events = events and r = r and on_receive = on_receive] assms
    by auto
next
  case True
  let ?w2 = "w\<lparr>auths := Suc (auths w),
                requests := requests w @ [(auths w, ''GET'',
                  base self @ ''/cgi-bin/eventManager.cgi?action=attach&codes=[''
                  @ join '','' events @ '']&heartbeat=2'')]\<rparr>"
  note u = stream_events_streaming [where net = net and w = w and self = self
        and events = events and r = r and on_receive = on_receive, OF assms(1-3) True]
  from assms(4) u obtain x w3 where
    i: "iter_chunks on_receive (chunks r) 0 ?w2 = Some (x, w3)"
    by (auto split: option.splits)
  from iter_chunks_world [OF i] have c: "closed w3 = closed w" by simp
  from assms(4) u i have "w' = close (length (requests w)) w3"
    by (auto split: option.splits)
  then show ?thesis by (simp add: close_def c)
qed

lemma stream_events_world:
  assumes "username self \<noteq> None" and "password self \<noteq> None"
      and "stream_events self on_receive events net w = Some (out, w')"
  shows "auths w' = Suc (auths w) \<and>
         requests w' = requests w @ [(auths w, ''GET'',
            base self @ ''/cgi-bin/eventManager.cgi?action=attach&codes=[''
            @ join '','' events @ '']&heartbeat=2'')]"
proof -
  let ?url = "base self @ ''/cgi-bin/eventManager.cgi?action=attach&codes=[''
            @ join '','' events @ '']&heartbeat=2''"
  let ?w2 = "w\<lparr>auths := Suc (auths w), requests := requests w @ [(auths w, ''GET'', ?url)]\<rparr>"
  show ?thesis
  proof (cases "gave (net (length (requests w)) ?url)")
    case (Fails e)
    then show ?thesis
      using stream_events_request_fails [where net = net and w = w and self = self
        and events = events and e = e and on_receive = on_receive] assms by auto
  next
    case (Done r)
    show ?thesis
    proof (cases "status r < 400")
      case False
      then show ?thesis
        using stream_events_bad_status [where net = net and w = w and self = self
          and events = events and r = r and on_receive = on_receive] assms Done by auto
    next
      case True
      note u = stream_events_streaming [where net = net and w = w and self = self
        and events = events and r = r and on_receive = on_receive, OF assms(1,2) Done True]
      from assms(3) u obtain x w3 where
        i: "iter_chunks on_receive (chunks r) 0 ?w2 = Some (x, w3)"
        by (auto split: option.splits)
      from iter_chunks_world [OF i] have c: "auths w3 = Suc (auths w)"
        "requests w3 = requests w @ [(auths w, ''GET'', ?url)]" by simp_all
      from assms(3) u i have "w' = close (length (requests w)) w3"
        by (auto split: option.splits)
      then show ?thesis by (simp add: close_def c)
    qed
  qed
qed

lemma iter_chunks_upto_world:
  "auths (snd (iter_chunks_upto n h s i w)) = auths w
   \<and> requests (snd (iter_chunks_upto n h s i w)) = requests w"
proof (induction n arbitrary: i w)
  case 0
  show ?case by simp
next
  case (Suc n)
  show ?case
  proof (cases "s i")
    case (Chunk d)
    then show ?thesis using Suc.IH [of "Suc i" "w\<lparr>received := received w @ [d]\<rparr>"]
      by (cases "h d") simp_all
  qed simp_all
qed

lemma iter_chunks_upto_sound:
  "iter_chunks_upto n h s i w = (Some x, w') \<Longrightarrow> iter_chunks h s i w = Some (x, w')"
proof (induction n arbitrary: i w)
  case 0
  then show ?case by simp
next
  case (Suc n)
  show ?case
  proof (cases "s i")
    case (Chunk d)
    show ?thesis
    proof (cases "h d")
      case None
      with Suc.prems Chunk
      have "iter_chunks_upto n h s (Suc i) (w\<lparr>received := received w @ [d]\<rparr>) = (Some x, w')"
        by simp
      from Suc.IH [OF this] show ?thesis
        by (subst iter_chunks.simps) (simp add: Chunk None)
    next
      case (Some e)
      with Suc.prems Chunk have "x = Some e" "w' = w\<lparr>received := received w @ [d]\<rparr>"
        by simp_all
      then show ?thesis by (subst iter_chunks.simps) (simp add: Chunk Some)
    qed
  next
    case EndOfStream
    with Suc.prems show ?thesis by (subst iter_chunks.simps) auto
  next
    case (Broken e)
    with Suc.prems show ?thesis by (subst iter_chunks.simps) auto
  qed
qed

lemma iter_chunks_upto_complete:
  assumes "iter_chunks h s i w = Some y"
  shows "\<exists>n. iter_chunks_upto n h s i w = (Some (fst y), snd y)"
proof (rule iter_chunks.raw_induct
    [where P = "\<lambda>(h :: string \<Rightarrow> exn option) (s :: nat \<Rightarrow> item) (i :: nat) w y.
        \<exists>n. iter_chunks_upto n h s i w = (Some (fst y), snd y)", OF _ assms])
  fix iter and h :: "string \<Rightarrow> exn option" and s :: "nat \<Rightarrow> item" and i :: nat
    and w :: world and y :: "exn option \<times> world"
  assume IH: "\<And>h s i w y. iter h s i w = Some y \<Longrightarrow>
        \<exists>n. iter_chunks_upto n h s i w = (Some (fst y), snd y)"
    and step: "(case s i of
        Chunk data \<Rightarrow>
          (case h data of
             None \<Rightarrow> iter h s (Suc i) (w\<lparr>received := received w @ [data]\<rparr>)
           | Some e \<Rightarrow> Some (Some e, w\<lparr>received := received w @ [data]\<rparr>))
      | EndOfStream \<Rightarrow> Some (None, w)
      | Broken e \<Rightarrow> Some (Some e, w)) = Some y"
  show "\<exists>n. iter_chunks_upto n h s i w = (Some (fst y), snd y)"
  proof (cases "s i")
    case (Chunk d)
    show ?thesis
    proof (cases "h d")
      case None
      with step Chunk have "iter h s (Suc i) (w\<lparr>received := received w @ [d]\<rparr>) = Some y"
        by simp
      from IH [OF this] obtain n where
        "iter_chunks_upto n h s (Suc i) (w\<lparr>received := received w @ [d]\<rparr>) = (Some (fst y), snd y)"
        by blast
      then have "iter_chunks_upto (Suc n) h s i w = (Some (fst y), snd y)"
        by (simp add: Chunk None)
      then show ?thesis by blast
    next
      case (Some e)
      with step Chunk have "iter_chunks_upto (Suc 0) h s i w = (Some (fst y), snd y)" by auto
      then show ?thesis by blast
    qed
  next
    case EndOfStream
    with step have "iter_chunks_upto (Suc 0) h s i w = (Some (fst y), snd y)" by auto
    then show ?thesis by blast
  next
    case (Broken e)
    with step have "iter_chunks_upto (Suc 0) h s i w = (Some (fst y), snd y)" by auto
    then show ?thesis by blast
  qed
qed

lemma iter_chunks_iff_upto:
  "iter_chunks h s i w = Some (x, w') \<longleftrightarrow> (\<exists>n. iter_chunks_upto n h s i w = (Some x, w'))"
  using iter_chunks_upto_complete [of h s i w "(x, w')"] iter_chunks_upto_sound [of _ h s i w x w']
  by auto

lemma stream_events_upto_streaming:
  assumes "username self \<noteq> None" and "password self \<noteq> None"
      and "gave (net (length (requests w))
                 (base self @ ''/cgi-bin/eventManager.cgi?action=attach&codes=[''
                  @ join '','' events @ '']&heartbeat=2'')) = Done r"
      and "status r < 400"
  shows "stream_events_upto n self on_receive events net w =
           (case iter_chunks_upto n on_receive (chunks r) 0
                   (w\<lparr>auths := Suc (auths w),
                     requests := requests w @ [(auths w, ''GET'',
                       base self @ ''/cgi-bin/eventManager.cgi?action=attach&codes=[''
                       @ join '','' events @ '']&heartbeat=2'')]\<rparr>) of
              (None, w3) \<Rightarrow> (None, w3)
            | (Some None, w3) \<Rightarrow> (Some (Return ()), close (length (requests w)) w3)
            | (Some (Some e), w3) \<Rightarrow> (Some (stream_except e), close (length (requests w)) w3))"
  using assms
  by (simp add: stream_events_upto_def Let_def DigestAuth_def auth_request_def
      raise_for_status_def cong: option.case_cong prod.case_cong)

lemma stream_events_upto_not_streaming:
  assumes "username self \<noteq> None" and "password self \<noteq> None"
      and "gave (net (length (requests w))
                 (base self @ ''/cgi-bin/eventManager.cgi?action=attach&codes=[''
                  @ join '','' events @ '']&heartbeat=2'')) = Fails e
           \<or> (\<exists>r. gave (net (length (requests w))
                 (base self @ ''/cgi-bin/eventManager.cgi?action=attach&codes=[''
                  @ join '','' events @ '']&heartbeat=2'')) = Done r \<and> 400 \<le> status r)"
  shows "stream_events self on_receive events net w
           = Some (the (fst (stream_events_upto n self on_receive events net w)),
                   snd (stream_events_upto n self on_receive events net w))
         \<and> fst (stream_events_upto n self on_receive events net w) \<noteq> None
         \<and> auths (snd (stream_events_upto n self on_receive events net w)) = Suc (auths w)
         \<and> requests (snd (stream_events_upto n self on_receive events net w)) =
             requests w @ [(auths w, ''GET'',
               base self @ ''/cgi-bin/eventManager.cgi?action=attach&codes=[''
               @ join '','' events @ '']&heartbeat=2'')]"
  using assms
  by (auto simp: stream_events_upto_def stream_events_def Let_def DigestAuth_def auth_request_def
      raise_for_status_def close_def)

lemma stream_events_upto_world:
  assumes "username self \<noteq> None" and "password self \<noteq> None"
  shows "auths (snd (stream_events_upto n self on_receive events net w)) = Suc (auths w)
         \<and> requests (snd (stream_events_upto n self on_receive events net w)) =
             requests w @ [(auths w, ''GET'',
               base self @ ''/cgi-bin/eventManager.cgi?action=attach&codes=[''
               @ join '','' events @ '']&heartbeat=2'')]"
proof -
  let ?url = "base self @ ''/cgi-bin/eventManager.cgi?action=attach&codes=[''
               @ join '','' events @ '']&heartbeat=2''"
  let ?w2 = "w\<lparr>auths := Suc (auths w), requests := requests w @ [(auths w, ''GET'', ?url)]\<rparr>"
  show ?thesis
  proof (cases "gave (net (length (requests w)) ?url)")
    case (Fails e)
    then show ?thesis
      using stream_events_upto_not_streaming [where net = net and w = w and self = self
        and events = events and e = e and on_receive = on_receive and n = n] assms by blast
  next
    case (Done r)
    show ?thesis
    proof (cases "status r < 400")
      case False
      then show ?thesis
        using stream_events_upto_not_streaming [where net = net and w = w and self = self
          and events = events and on_receive = on_receive and n = n] assms Done by auto
    next
      case True
      note u = stream_events_upto_streaming [where net = net and w = w and self = self
        and events = events and r = r and on_receive = on_receive and n = n,
        OF assms Done True]
      obtain x w3 where i: "iter_chunks_upto n on_receive (chunks r) 0 ?w2 = (x, w3)"
        by (cases "iter_chunks_upto n on_receive (chunks r) 0 ?w2") blast
      from iter_chunks_upto_world [of n on_receive "chunks r" 0 ?w2] i
      have c: "auths w3 = Suc (auths w)" "requests w3 = requests w @ [(auths w, ''GET'', ?url)]"
        by simp_all
      show ?thesis unfolding u i using c
        by (auto simp: close_def split: option.splits)
    qed
  qed
qed

lemma stream_events_iff_upto:
  assumes "username self \<noteq> None" and "password self \<noteq> None"
  shows "stream_events self on_receive events net w = Some (out, w')
         \<longleftrightarrow> (\<exists>n. stream_events_upto n self on_receive events net w = (Some out, w'))"
proof -
  let ?url = "base self @ ''/cgi-bin/eventManager.cgi?action=attach&codes=[''
               @ join '','' events @ '']&heartbeat=2''"
  let ?w2 = "w\<lparr>auths := Suc (auths w), requests := requests w @ [(auths w, ''GET'', ?url)]\<rparr>"
  show ?thesis
  proof (cases "gave (net (length (requests w)) ?url)")
    case (Fails e)
    then show ?thesis using assms
      by (simp add: stream_events_upto_def stream_events_def Let_def DigestAuth_def
          auth_request_def)
  next
    case (Done r)
    show ?thesis
    proof (cases "status r < 400")
      case False
      then show ?thesis using assms Done
        by (simp add: stream_events_upto_def stream_events_def Let_def DigestAuth_def
            auth_request_def raise_for_status_def)
    next
      case True
      note u = stream_events_upto_streaming [where net = net and w = w and self = self
        and events = events and r = r and on_receive = on_receive,
        OF assms Done True]
      note v = stream_events_streaming [where net = net and w = w and self = self
        and events = events and r = r and on_receive = on_receive,
        OF assms Done True]
      show ?thesis
      proof
        assume a: "stream_events self on_receive events net w = Some (out, w')"
        with v obtain x w3 where
          i: "iter_chunks on_receive (chunks r) 0 ?w2 = Some (x, w3)"
          by (auto split: option.splits)
        then obtain n where
          j: "iter_chunks_upto n on_receive (chunks r) 0 ?w2 = (Some x, w3)"
          using iter_chunks_iff_upto by blast
        from a v i have "(out, w') = (case x of None \<Rightarrow> (Return (), close (length (requests w)) w3)
                            | Some e \<Rightarrow> (stream_except e, close (length (requests w)) w3))"
          by (auto split: option.splits)
        then have "stream_events_upto n self on_receive events net w = (Some out, w')"
          unfolding u [of n] j by (auto split: option.splits)
        then show "\<exists>n. stream_events_upto n self on_receive events net w = (Some out, w')"
          by blast
      next
        assume "\<exists>n. stream_events_upto n self on_receive events net w = (Some out, w')"
        then obtain n where
          a: "stream_events_upto n self on_receive events net w = (Some out, w')" by blast
        obtain x w3 where j: "iter_chunks_upto n on_receive (chunks r) 0 ?w2 = (x, w3)"
          by (cases "iter_chunks_upto n on_receive (chunks r) 0 ?w2") blast
        from a u [of n] j obtain x' where x: "x = Some x'" by (cases x) auto
        from j x have i: "iter_chunks on_receive (chunks r) 0 ?w2 = Some (x', w3)"
          using iter_chunks_iff_upto by blast
        from a u [of n] j x show "stream_events self on_receive events net w = Some (out, w')"
          unfolding v i by (auto split: option.splits)
      qed
    qed
  qed
qed

text \<open>
  Claim C4, as amended. Every call of \<open>get\<close> and of \<open>get_bytes\<close> constructs one new
  authenticator and issues exactly one request, through that new authenticator. So does
  every call of \<open>stream_events\<close> with credentials, before the loop starts and at every
  moment of the loop, whether or not the subscription ever ends: however many rounds of
  the loop have run, one authenticator has been constructed and one request issued. The
  observation after \<open>n\<close> rounds agrees with \<open>stream_events\<close>: the call comes back with an
  outcome exactly when some number of rounds yields that outcome.
\<close>

theorem fresh_authenticator_per_request:
  "auths (snd (get self url net w)) = Suc (auths w)
   \<and> requests (snd (get self url net w)) = requests w @ [(auths w, ''GET'', base self @ url)]
   \<and> auths (snd (get_bytes self url net w)) = Suc (auths w)
   \<and> requests (snd (get_bytes self url net w)) = requests w @ [(auths w, ''GET'', base self @ url)]
   \<and> (username self \<noteq> None \<and> password self \<noteq> None \<longrightarrow>
        (\<forall>n. auths (snd (stream_events_upto n self on_receive events net w)) = Suc (auths w)
           \<and> requests (snd (stream_events_upto n self on_receive events net w)) =
               requests w @ [(auths w, ''GET'',
                 base self @ ''/cgi-bin/eventManager.cgi?action=attach&codes=[''
                 @ join '','' events @ '']&heartbeat=2'')])
        \<and> (\<forall>out w'. stream_events self on_receive events net w = Some (out, w')
              \<longleftrightarrow> (\<exists>n. stream_events_upto n self on_receive events net w = (Some out, w')))
        \<and> (\<forall>out w'. stream_events self on_receive events net w = Some (out, w') \<longrightarrow>
              auths w' = Suc (auths w)
              \<and> requests w' = requests w @ [(auths w, ''GET'',
                   base self @ ''/cgi-bin/eventManager.cgi?action=attach&codes=[''
                   @ join '','' events @ '']&heartbeat=2'')]))"
proof (intro conjI impI allI)
  assume c: "username self \<noteq> None \<and> password self \<noteq> None"
  fix out w'
  show "stream_events self on_receive events net w = Some (out, w')
          \<longleftrightarrow> (\<exists>n. stream_events_upto n self on_receive events net w = (Some out, w'))"
    using c by (intro stream_events_iff_upto) simp_all
next
  assume c: "username self \<noteq> None \<and> password self \<noteq> None"
  fix n
  show "auths (snd (stream_events_upto n self on_receive events net w)) = Suc (auths w)"
       "requests (snd (stream_events_upto n self on_receive events net w)) =
               requests w @ [(auths w, ''GET'',
                 base self @ ''/cgi-bin/eventManager.cgi?action=attach&codes=[''
                 @ join '','' events @ '']&heartbeat=2'')]"
    using c stream_events_upto_world [of self n on_receive events net w] by simp_all
next
  assume c: "username self \<noteq> None \<and> password self \<noteq> None"
  fix out w'
  assume r: "stream_events self on_receive events net w = Some (out, w')"
  show "auths w' = Suc (auths w)"
       "requests w' = requests w @ [(auths w, ''GET'',
                   base self @ ''/cgi-bin/eventManager.cgi?action=attach&codes=[''
                   @ join '','' events @ '']&heartbeat=2'')]"
    using c r stream_events_world [of self on_receive events net w out w'] by simp_all
qed (simp_all add: get_requests get_bytes_requests)

lemma base_camera: "base camera = ''http://192.168.1.108:80''"
  by (simp add: camera_def DahuaClient_def str_int_def digit_char_def)

lemma camera_credentials: "username camera \<noteq> None" "password camera \<noteq> None"
  by (simp_all add: camera_def DahuaClient_def)

lemma iter_chunks_one_chunk:
  "iter_chunks accept (stream_of [d] EndOfStream) 0 w = Some (None, w\<lparr>received := received w @ [d]\<rparr>)"
  "iter_chunks accept (stream_of [d] (Broken e)) 0 w = Some (Some e, w\<lparr>received := received w @ [d]\<rparr>)"
  by (simp_all add: iter_chunks.simps stream_of_def accept_def)

text \<open>
  Claim C5 as stated fails: on the status 304, which is not a 2xx status, nothing is
  raised; the loop is entered, the handler receives the chunk, and the call returns.
\<close>

theorem stream_events_status_304_counterexample:
  "stream_events camera accept [''All'']
      (replies (event_response 304 [''Heartbeat''] EndOfStream)) world0
   = Some (Return (),
        \<lparr>auths = 1,
         requests = [(0, ''GET'', ''http://192.168.1.108:80/cgi-bin/eventManager.cgi?action=attach&codes=[All]&heartbeat=2'')],
         closed = [0], logged = [], received = [''Heartbeat'']\<rparr>)"
  by (simp add: stream_events_def Let_def camera_credentials base_camera DigestAuth_def
      auth_request_def replies_def event_response_def raise_for_status_def
      iter_chunks_one_chunk close_def world0_def)

text \<open>
  The theorem at a subscription cancelled after one chunk: the cancellation is raised
  to the caller, and the response has been closed once.
\<close>

theorem stream_events_closes_once_witness:
  "stream_events camera accept [''All'']
      (replies (event_response 200 [''Heartbeat''] (Broken new_CancelledError))) world0
   = Some (Raise new_CancelledError,
        \<lparr>auths = 1,
         requests = [(0, ''GET'', ''http://192.168.1.108:80/cgi-bin/eventManager.cgi?action=attach&codes=[All]&heartbeat=2'')],
         closed = [0], logged = [], received = [''Heartbeat'']\<rparr>)
   \<and> closed \<lparr>auths = 1,
         requests = [(0, ''GET'', ''http://192.168.1.108:80/cgi-bin/eventManager.cgi?action=attach&codes=[All]&heartbeat=2'')],
         closed = [0], logged = [], received = [''Heartbeat'']\<rparr> = closed world0 @ [length (requests world0)]"
proof -
  let ?net = "replies (event_response 200 [''Heartbeat''] (Broken new_CancelledError))"
  let ?w = "\<lparr>auths = 1,
         requests = [(0, ''GET'', ''http://192.168.1.108:80/cgi-bin/eventManager.cgi?action=attach&codes=[All]&heartbeat=2'')],
         closed = [0], logged = [], received = [''Heartbeat'']\<rparr>"
  have c: "\<not> isinstance new_CancelledError Exception"
    by (simp add: isinstance_def new_CancelledError_def)
  have run: "stream_events camera accept [''All''] ?net world0 = Some (Raise new_CancelledError, ?w)"
    by (simp add: stream_events_def Let_def camera_credentials base_camera DigestAuth_def
      auth_request_def replies_def event_response_def raise_for_status_def
      iter_chunks_one_chunk close_def world0_def stream_except_def c)
  have g: "gave (?net (length (requests world0))
                 (base camera @ ''/cgi-bin/eventManager.cgi?action=attach&codes=[''
                  @ join '','' [''All''] @ '']&heartbeat=2''))
             = Done (event_response 200 [''Heartbeat''] (Broken new_CancelledError))"
    by (simp add: replies_def)
  from stream_events_closes_once [where net = ?net and self = camera and w = world0
      and events = "[''All'']" and on_receive = accept, OF camera_credentials g run]
  show ?thesis using run by simp
qed

text \<open>
  The theorem at a failed name lookup, at the status 401, and at a stream that breaks
  after one chunk.
\<close>

theorem stream_events_failure_is_ConnectionError_witness:
  "fst (the (stream_events camera accept [''All'']
          (refuses 10 (new_gaierror ''Name or service not known'')) world0))
     = Raise (new_ConnectionError (new_gaierror ''Name or service not known''))
   \<and> fst (the (stream_events camera accept [''All'']
          (replies (event_response 401 [] EndOfStream)) world0))
     = Raise (new_ConnectionError (new_ClientResponseError 401))
   \<and> fst (the (stream_events camera accept [''All'']
          (replies (event_response 200 [''Heartbeat''] (Broken (new_Exception ''reset'')))) world0))
     = Raise (new_ConnectionError (new_Exception ''reset''))"
proof -
  let ?g = "new_gaierror ''Name or service not known''"
  let ?r1 = "event_response 401 [] EndOfStream"
  let ?x = "new_Exception ''reset''"
  let ?r2 = "event_response 200 [''Heartbeat''] (Broken ?x)"
  have i: "isinstance ?g Exception" "isinstance ?x Exception"
    by (simp_all add: isinstance_def new_gaierror_def new_Exception_def)
  have s: "stream_raises accept (chunks ?r2) 1 ?x"
    by (simp add: stream_raises_def event_response_def stream_of_def accept_def)
  from stream_events_failure_is_ConnectionError
         [where net = "refuses 10 ?g" and self = camera and w = world0 and events = "[''All'']"
            and on_receive = accept, OF camera_credentials refl]
  have a: "fst (the (stream_events camera accept [''All''] (refuses 10 ?g) world0))
             = Raise (new_ConnectionError ?g)"
    using i by (auto simp: refuses_def)
  from stream_events_failure_is_ConnectionError
         [where net = "replies ?r1" and self = camera and w = world0 and events = "[''All'']"
            and on_receive = accept, OF camera_credentials refl]
  have b: "fst (the (stream_events camera accept [''All''] (replies ?r1) world0))
             = Raise (new_ConnectionError (new_ClientResponseError 401))"
    by (auto simp: replies_def event_response_def)
  have d: "gave (replies ?r2 (length (requests world0))
                   (base camera @ ''/cgi-bin/eventManager.cgi?action=attach&codes=[''
                    @ join '','' [''All''] @ '']&heartbeat=2'')) = Done ?r2
           \<and> status ?r2 < 400 \<and> stream_raises accept (chunks ?r2) 1 ?x
           \<and> isinstance ?x Exception"
    using i s by (simp add: replies_def event_response_def)
  from conjunct2 [OF conjunct2 [OF stream_events_failure_is_ConnectionError
         [where net = "replies ?r2" and self = camera and w = world0 and events = "[''All'']"
            and on_receive = accept, OF camera_credentials refl]], rule_format, OF d]
  have c: "fst (the (stream_events camera accept [''All''] (replies ?r2) world0))
             = Raise (new_ConnectionError ?x)"
    by auto
  from a b c show ?thesis by simp
qed

text \<open>
  Claim C4 as stated fails: two requests of one client, a \<open>get\<close> and then a
  \<open>get_bytes\<close>, go through two different authenticators, numbers 0 and 1; two have been
  constructed.
\<close>

theorem one_authenticator_counterexample:
  "map fst (requests (snd (get_bytes camera ''/cgi-bin/snapshot.cgi?channel=1''
                             (replies (text_response 200 ''vendor=Dahua''))
                             (snd (get camera ''/cgi-bin/magicBox.cgi?action=getVendor''
                                     (replies (text_response 200 ''vendor=Dahua'')) world0)))))
     = [0, 1]
   \<and> auths (snd (get_bytes camera ''/cgi-bin/snapshot.cgi?channel=1''
                    (replies (text_response 200 ''vendor=Dahua''))
                    (snd (get camera ''/cgi-bin/magicBox.cgi?action=getVendor''
                            (replies (text_response 200 ''vendor=Dahua'')) world0)))) = 2"
  by (simp add: get_requests get_bytes_requests world0_def)

text \<open>
  The theorem at a \<open>get\<close> followed, on the same client, by a subscription to a stream
  that never ends, observed after three rounds: still running, two requests in all, each
  through its own authenticator.
\<close>

theorem fresh_authenticator_per_request_witness:
  "requests (snd (get camera ''/cgi-bin/magicBox.cgi?action=getVendor''
                    (replies (text_response 200 ''vendor=Dahua'')) world0))
     = [(0, ''GET'', ''http://192.168.1.108:80/cgi-bin/magicBox.cgi?action=getVendor'')]
   \<and> requests (snd (stream_events_upto 3 camera accept [''All'']
                    (replies ((event_response 200 [] EndOfStream)\<lparr>chunks := endless ''Heartbeat''\<rparr>))
                    (snd (get camera ''/cgi-bin/magicBox.cgi?action=getVendor''
                            (replies (text_response 200 ''vendor=Dahua'')) world0))))
     = [(0, ''GET'', ''http://192.168.1.108:80/cgi-bin/magicBox.cgi?action=getVendor''),
        (1, ''GET'', ''http://192.168.1.108:80/cgi-bin/eventManager.cgi?action=attach&codes=[All]&heartbeat=2'')]
   \<and> fst (stream_events_upto 3 camera accept [''All'']
                    (replies ((event_response 200 [] EndOfStream)\<lparr>chunks := endless ''Heartbeat''\<rparr>))
                    (snd (get camera ''/cgi-bin/magicBox.cgi?action=getVendor''
                            (replies (text_response 200 ''vendor=Dahua'')) world0))) = None"
proof -
  let ?n1 = "replies (text_response 200 ''vendor=Dahua'')"
  let ?n2 = "replies ((event_response 200 [] EndOfStream)\<lparr>chunks := endless ''Heartbeat''\<rparr>)"
  let ?w1 = "snd (get camera ''/cgi-bin/magicBox.cgi?action=getVendor'' ?n1 world0)"
  note t1 = fresh_authenticator_per_request [where self = camera and net = ?n1 and w = world0
      and url = "''/cgi-bin/magicBox.cgi?action=getVendor''"]
  have a: "auths ?w1 = 1"
    "requests ?w1 = [(0, ''GET'', ''http://192.168.1.108:80/cgi-bin/magicBox.cgi?action=getVendor'')]"
    using t1 by (simp_all add: world0_def base_camera)
  note t2 = fresh_authenticator_per_request [where self = camera and net = ?n2 and w = ?w1
      and events = "[''All'']" and on_receive = accept]
  from t2 camera_credentials
  have b: "requests (snd (stream_events_upto 3 camera accept [''All''] ?n2 ?w1)) =
             requests ?w1 @ [(auths ?w1, ''GET'',
               base camera @ ''/cgi-bin/eventManager.cgi?action=attach&codes=[''
               @ join '','' [''All''] @ '']&heartbeat=2'')]"
    by blast
  have c: "fst (stream_events_upto 3 camera accept [''All''] ?n2 w) = None" for w
    by (simp add: stream_events_upto_def Let_def camera_credentials DigestAuth_def
        auth_request_def replies_def event_response_def raise_for_status_def
        endless_def accept_def numeral_3_eq_3)
  from a b c show ?thesis by (simp add: base_camera)
qed

section \<open>Motion detection\<close>

lemma get_except_raises:
  "fst (get_except url e w) = Raise e' \<Longrightarrow>
     e' = e \<and> (isinstance e ClientError \<or> isinstance e gaierror \<or> \<not> isinstance e Exception)"
  by (auto simp: get_except_def split: if_splits)

lemma get_raises:
  assumes "fst (get self url net w) = Raise e"
  shows "isinstance e ClientError \<or> isinstance e gaierror \<or> \<not> isinstance e Exception"
proof -
  have "\<exists>u x w'. get self url net w = get_except u x w'
          \<or> (\<exists>v. get self url net w = (Return v, w'))"
    by (auto simp: get_def DigestAuth_def auth_request_def Let_def
        split: outcome.splits option.splits)
  then obtain u x w' where
    "get self url net w = get_except u x w' \<or> (\<exists>v. get self url net w = (Return v, w'))"
    by blast
  with assms show ?thesis using get_except_raises [of u x w' e] by auto
qed

lemma get_decoded:
  assumes "net (length (requests w)) (base self @ url) = Awaited t (Done r)"
      and "\<not> expired t" and "status r < 400"
      and "body_text r = Awaited t' (Done data)" and "\<not> expired (t + t')"
  shows "fst (get self url net w) = Return (Some (parse_dahua_api_response data))"
  using assms
  by (simp add: get_def DigestAuth_def auth_request_def Let_def raise_for_status_def)

text \<open>
  Claim C10, as amended. When the first request of \<open>enable_motion_detection\<close> yields a
  dictionary without the key \<open>OK\<close>, the operation raises no error of its own and checks
  nothing further: it issues a second request, to the URL without the \<open>DetectVersion\<close>
  parameter, and its outcome is the outcome of that second \<open>get\<close>. When the second
  request is answered in time with a status below 400, the decoded second answer is
  returned as it is, whatever it says. The call raises only when the second \<open>get\<close>
  raises, and then the exception is a client error, a \<open>socket.gaierror\<close>, or not an
  \<open>Exception\<close> at all.
\<close>

theorem enable_motion_detection_falls_back:
  assumes "get self (''/cgi-bin/configManager.cgi?action=setConfig&MotionDetect[0].Enable=''
                     @ lower (str_bool enabled) @ ''&MotionDetect[0].DetectVersion=V3.0'') net w
             = (Return (Some response), w1)"
      and "\<not> dict_contains ''OK'' response"
      and "legacy = ''/cgi-bin/configManager.cgi?action=setConfig&MotionDetect[0].Enable=''
                     @ lower (str_bool enabled)"
  shows "enable_motion_detection self enabled net w = get self legacy net w1
       \<and> requests (snd (enable_motion_detection self enabled net w)) =
             requests w1 @ [(auths w1, ''GET'', base self @ legacy)]
       \<and> (\<forall>t r t' data.
             net (length (requests w1)) (base self @ legacy) = Awaited t (Done r)
             \<and> \<not> expired t \<and> status r < 400
             \<and> body_text r = Awaited t' (Done data) \<and> \<not> expired (t + t') \<longrightarrow>
             fst (enable_motion_detection self enabled net w)
               = Return (Some (parse_dahua_api_response data)))
       \<and> (\<forall>e. fst (enable_motion_detection self enabled net w) = Raise e \<longrightarrow>
             fst (get self legacy net w1) = Raise e
             \<and> (isinstance e ClientError \<or> isinstance e gaierror \<or> \<not> isinstance e Exception))"
proof -
  have e: "enable_motion_detection self enabled net w = get self legacy net w1"
    using assms by (simp add: enable_motion_detection_def Let_def)
  show ?thesis unfolding e
  proof (intro conjI allI impI)
    show "get self legacy net w1 = get self legacy net w1" by simp
    show "requests (snd (get self legacy net w1)) =
            requests w1 @ [(auths w1, ''GET'', base self @ legacy)]"
      by (simp add: get_requests)
  next
    fix t r t' data
    assume "net (length (requests w1)) (base self @ legacy) = Awaited t (Done r)
             \<and> \<not> expired t \<and> status r < 400
             \<and> body_text r = Awaited t' (Done data) \<and> \<not> expired (t + t')"
    then show "fst (get self legacy net w1) = Return (Some (parse_dahua_api_response data))"
      by (intro get_decoded [where t = t and t' = t' and r = r]) simp_all
  next
    fix x assume "fst (get self legacy net w1) = Raise x"
    then show "fst (get self legacy net w1) = Raise x"
      "isinstance x ClientError \<or> isinstance x gaierror \<or> \<not> isinstance x Exception"
      using get_raises by simp_all
  qed
qed

lemma get_camera_Error:
  "net (length (requests w)) (base camera @ u) = Awaited 30 (Done (text_response 200 ''Error''))
   \<Longrightarrow> get camera u net w =
      (Return (Some [(''Error'', ''Error'')]),
       w\<lparr>auths := Suc (auths w), requests := requests w @ [(auths w, ''GET'', base camera @ u)],
         closed := closed w @ [length (requests w)]\<rparr>)"
  by (simp add: get_def DigestAuth_def auth_request_def Let_def raise_for_status_def
      text_response_def expired_def TIMEOUT_SECONDS_def close_def parse_Error)

text \<open>
  The theorem at a camera that answers \<open>Error\<close> to both requests: that answer, decoded,
  is returned.
\<close>

theorem enable_motion_detection_falls_back_witness:
  "enable_motion_detection camera True (replies (text_response 200 ''Error'')) world0
     = (Return (Some [(''Error'', ''Error'')]),
        \<lparr>auths = 2,
         requests = [(0, ''GET'', ''http://192.168.1.108:80/cgi-bin/configManager.cgi?action=setConfig&MotionDetect[0].Enable=true&MotionDetect[0].DetectVersion=V3.0''),
                     (1, ''GET'', ''http://192.168.1.108:80/cgi-bin/configManager.cgi?action=setConfig&MotionDetect[0].Enable=true'')],
         closed = [0, 1], logged = [], received = []\<rparr>)"
proof -
  let ?net = "replies (text_response 200 ''Error'')"
  have g: "get camera u ?net w =
      (Return (Some [(''Error'', ''Error'')]),
       w\<lparr>auths := Suc (auths w), requests := requests w @ [(auths w, ''GET'', base camera @ u)],
         closed := closed w @ [length (requests w)]\<rparr>)" for u w
    by (rule get_camera_Error) (simp add: replies_def)
  have n: "\<not> dict_contains ''OK'' [(''Error'', ''Error'')]" by (simp add: dict_contains_def)
  have l: "lower (str_bool True) = ''true''" by code_simp
  from enable_motion_detection_falls_back [where net = ?net and self = camera and enabled = True
        and w = world0, OF g n refl]
  show ?thesis by (simp add: g l base_camera world0_def)
qed

text \<open>
  Claim C10 as stated fails: the first answer \<open>Error\<close> lacks the token, the second
  request is answered with the status 500, and the call raises \<open>ClientResponseError\<close>
  instead of returning a second response.
\<close>

theorem enable_motion_detection_second_request_fails_counterexample:
  "\<not> dict_contains ''OK'' (parse_dahua_api_response ''Error'')
   \<and> fst (enable_motion_detection camera True
            (replies_in_turn (text_response 200 ''Error'') (text_response 500 ''Error'')) world0)
       = Raise (new_ClientResponseError 500)"
proof -
  let ?net = "replies_in_turn (text_response 200 ''Error'') (text_response 500 ''Error'')"
  let ?w1 = "world0\<lparr>auths := Suc (auths world0),
       requests := requests world0 @ [(auths world0, ''GET'', base camera
          @ ''/cgi-bin/configManager.cgi?action=setConfig&MotionDetect[0].Enable=''
          @ lower (str_bool True) @ ''&MotionDetect[0].DetectVersion=V3.0'')],
       closed := closed world0 @ [length (requests world0)]\<rparr>"
  have n: "\<not> dict_contains ''OK'' [(''Error'', ''Error'')]" by (simp add: dict_contains_def)
  have g1: "get camera (''/cgi-bin/configManager.cgi?action=setConfig&MotionDetect[0].Enable=''
                     @ lower (str_bool True) @ ''&MotionDetect[0].DetectVersion=V3.0'') ?net world0
            = (Return (Some [(''Error'', ''Error'')]), ?w1)"
    by (rule get_camera_Error) (simp add: replies_in_turn_def world0_def)
  have c: "isinstance (new_ClientResponseError 500) ClientError"
          "\<not> isinstance (new_ClientResponseError 500) TimeoutError"
          "\<not> isinstance (new_ClientResponseError 500) KeyError"
          "\<not> isinstance (new_ClientResponseError 500) TypeError"
    by (simp_all add: isinstance_def new_ClientResponseError_def)
  have g2: "requests w \<noteq> [] \<Longrightarrow> fst (get camera u ?net w) = Raise (new_ClientResponseError 500)"
    for u w
    by (simp add: get_def DigestAuth_def auth_request_def Let_def raise_for_status_def
        replies_in_turn_def text_response_def expired_def TIMEOUT_SECONDS_def
        get_except_def c)
  have "fst (enable_motion_detection camera True ?net world0) = Raise (new_ClientResponseError 500)"
    using g1 n by (simp add: enable_motion_detection_def Let_def g2)
  then show ?thesis using n by (simp add: parse_Error)
qed

end
